theory Spec2Isabelle
  imports Complex_Main "HOL-Library.Sublist" "HOL-Library.Log_Nat"
begin

section \<open>Python strings\<close>

text \<open>
  The tabular input normalizer of \<^verbatim>\<open>app1a.py\<close> (\<^verbatim>\<open>read_excel_data\<close> and the
  setup-sheet part of \<^verbatim>\<open>process_weights_targets_file\<close>) works on the cells of a pandas
  DataFrame. A string is a list of characters, and a character is one of the 256 code
  points U+0000 to U+00FF (Latin-1): text with a code point above U+00FF is not a value of
  this model. On these code points the functions below are \<^verbatim>\<open>str.strip\<close>,
  \<^verbatim>\<open>str.lower\<close>, \<^verbatim>\<open>str.upper\<close> and the \<^verbatim>\<open>in\<close> operator of Python 3.
\<close>

text \<open>
  \<^verbatim>\<open>str.strip()\<close> removes the characters for which \<^verbatim>\<open>str.isspace\<close> holds: the ASCII
  white space, the separators U+001C to U+001F, NEL (U+0085) and the no-break space (U+00A0).
\<close>

definition is_space :: "char \<Rightarrow> bool" where
  "is_space c = (c \<in> set [CHR 0x09, CHR 0x0A, CHR 0x0B, CHR 0x0C, CHR 0x0D,
                            CHR 0x1C, CHR 0x1D, CHR 0x1E, CHR 0x1F, CHR '' '',
                            CHR 0x85, CHR 0xA0])"

definition strip :: "string \<Rightarrow> string" where
  "strip s = rev (dropWhile is_space (rev (dropWhile is_space s)))"

text \<open>
  \<^verbatim>\<open>str.lower()\<close>: the letters A to Z and the capital letters U+00C0 to U+00DE (all but
  the multiplication sign U+00D7) move up by 32; every other character stays.
\<close>

definition lower_char :: "char \<Rightarrow> char" where
  "lower_char c =
     (let n = (of_char c :: nat)
      in if (65 \<le> n \<and> n \<le> 90) \<or> (192 \<le> n \<and> n \<le> 222 \<and> n \<noteq> 215)
         then char_of (n + 32) else c)"

definition lower :: "string \<Rightarrow> string" where
  "lower s = map lower_char s"

text \<open>
  \<^verbatim>\<open>str.upper()\<close>: the letters a to z and the small letters U+00E0 to U+00FE (all but the
  division sign U+00F7) move down by 32, and the sharp s (U+00DF) becomes \<^verbatim>\<open>SS\<close>. The
  upper case of the micro sign (U+00B5) and of y with diaeresis (U+00FF) lies above U+00FF:
  for them the result is \<open>None\<close>, a string that is not a value of this model.
\<close>

definition upper_char :: "char \<Rightarrow> string option" where
  "upper_char c =
     (let n = (of_char c :: nat)
      in if (97 \<le> n \<and> n \<le> 122) \<or> (224 \<le> n \<and> n \<le> 254 \<and> n \<noteq> 247)
         then Some [char_of (n - 32)]
         else if n = 223 then Some ''SS''
         else if n = 181 \<or> n = 255 then None
         else Some [c])"

fun upper :: "string \<Rightarrow> string option" where
  "upper [] = Some []"
| "upper (c # cs) =
     (case upper_char c of
        None \<Rightarrow> None
      | Some u \<Rightarrow> (case upper cs of None \<Rightarrow> None | Some us \<Rightarrow> Some (u @ us)))"

text \<open>\<^verbatim>\<open>k in s\<close> on strings: \<open>k\<close> occurs in \<open>s\<close> as a contiguous run.\<close>

fun contains :: "string \<Rightarrow> string \<Rightarrow> bool" where
  "contains k [] = (k = [])"
| "contains k (c # cs) = (prefix k (c # cs) \<or> contains k cs)"

definition is_digit :: "char \<Rightarrow> bool" where
  "is_digit c = (c \<in> set ''0123456789'')"

definition digit_val :: "char \<Rightarrow> nat" where
  "digit_val c = (case map_of (zip ''0123456789'' [0 ..< 10]) c of Some d \<Rightarrow> d | None \<Rightarrow> 0)"

definition digits_val :: "string \<Rightarrow> nat" where
  "digits_val ds = foldl (\<lambda>a c. 10 * a + digit_val c) 0 ds"

definition digit_char :: "nat \<Rightarrow> char" where
  "digit_char d = ''0123456789'' ! (d mod 10)"

function str_nat :: "nat \<Rightarrow> string" where
  "str_nat n = (if n < 10 then [digit_char n] else str_nat (n div 10) @ [digit_char (n mod 10)])"
  by pat_completeness auto
termination
  by (relation "measure (\<lambda>n. n)") auto

definition str_int :: "int \<Rightarrow> string" where
  "str_int i = (if i < 0 then CHR ''-'' # str_nat (nat (- i)) else str_nat (nat i))"

section \<open>Cells\<close>

text \<open>
  A Python float is an IEEE 754 binary64 value: a finite value, given by the rational
  number it denotes, with the negative zero apart; an infinity (\<open>True\<close> for the negative
  one); or NaN, which is what pandas stores in a blank cell.
\<close>

datatype pyfloat = Finite rat | NegZero | Infinity bool | NotANumber

datatype cell = CNone | CBool bool | CInt int | CFloat pyfloat | CStr string

text \<open>
  The exceptions. \<^verbatim>\<open>KeyboardInterrupt\<close> and \<^verbatim>\<open>SystemExit\<close> derive from
  \<^verbatim>\<open>BaseException\<close> only; the others are subclasses of \<^verbatim>\<open>Exception\<close>, which is what
  \<^verbatim>\<open>except Exception\<close> catches.
\<close>

datatype py_error =
  KeyError | ValueError | TypeError | IndexError | OverflowError | AttributeError | IOError
| KeyboardInterrupt | SystemExit

definition is_exception :: "py_error \<Rightarrow> bool" where
  "is_exception e = (e \<noteq> KeyboardInterrupt \<and> e \<noteq> SystemExit)"

definition isna :: "cell \<Rightarrow> bool" where
  "isna v = (v = CNone \<or> v = CFloat NotANumber)"

definition notna :: "cell \<Rightarrow> bool" where
  "notna v = (\<not> isna v)"

text \<open>
  \<^verbatim>\<open>str(v)\<close>. The text Python prints for a float is not computed here: it is the
  parameter \<open>fs\<close> of every function that formats a cell. The integers of a frame are
  the 64-bit integers of a typed column or the integers that pandas parsed from the sheet;
  \<^verbatim>\<open>str\<close> of an integer of more than 4300 digits, which raises, does not occur.
\<close>

fun py_str :: "(pyfloat \<Rightarrow> string) \<Rightarrow> cell \<Rightarrow> string" where
  "py_str fs CNone = ''None''"
| "py_str fs (CBool b) = (if b then ''True'' else ''False'')"
| "py_str fs (CInt i) = str_int i"
| "py_str fs (CFloat f) = fs f"
| "py_str fs (CStr s) = s"

subsection \<open>\<^verbatim>\<open>float(s)\<close> and \<^verbatim>\<open>int(v)\<close>\<close>

text \<open>A digit part of a Python numeric literal: digits, single underscores between them.\<close>

fun digitpart :: "string \<Rightarrow> bool" where
  "digitpart [] = False"
| "digitpart [c] = is_digit c"
| "digitpart (c # d # cs) =
     (is_digit c \<and> (if d = CHR ''_'' then digitpart cs else digitpart (d # cs)))"

definition digitpart_val :: "string \<Rightarrow> nat" where
  "digitpart_val s = digits_val (filter is_digit s)"

text \<open>Splitting at the first character that satisfies \<open>P\<close>; \<open>None\<close> when there is none.\<close>

definition split_first :: "(char \<Rightarrow> bool) \<Rightarrow> string \<Rightarrow> string \<times> string option" where
  "split_first P s =
     (takeWhile (\<lambda>c. \<not> P c) s,
      case dropWhile (\<lambda>c. \<not> P c) s of [] \<Rightarrow> None | c # rest \<Rightarrow> Some rest)"

definition take_sign :: "string \<Rightarrow> bool \<times> string" where
  "take_sign s =
     (case s of
        [] \<Rightarrow> (False, s)
      | c # cs \<Rightarrow> if c = CHR ''-'' then (True, cs) else if c = CHR ''+'' then (False, cs)
                  else (False, s))"

text \<open>\<^verbatim>\<open>[digitpart] "." digitpart | digitpart ["."]\<close>\<close>

definition parse_number :: "string \<Rightarrow> rat option" where
  "parse_number s =
     (case split_first (\<lambda>c. c = CHR ''.'') s of
        (ip, None) \<Rightarrow> if digitpart ip then Some (of_nat (digitpart_val ip)) else None
      | (ip, Some fp) \<Rightarrow>
          if (ip = [] \<and> digitpart fp) \<or> (digitpart ip \<and> (fp = [] \<or> digitpart fp))
          then Some (of_nat (digitpart_val ip)
                     + of_nat (digitpart_val fp) / 10 ^ length (filter is_digit fp))
          else None)"

definition parse_exponent :: "string \<Rightarrow> int option" where
  "parse_exponent s =
     (case take_sign s of
        (neg, ds) \<Rightarrow>
          if digitpart ds
          then Some (if neg then - int (digitpart_val ds) else int (digitpart_val ds))
          else None)"

definition scale10 :: "rat \<Rightarrow> int \<Rightarrow> rat" where
  "scale10 q e = (if 0 \<le> e then q * 10 ^ nat e else q / 10 ^ nat (- e))"

definition parse_floatnumber :: "string \<Rightarrow> rat option" where
  "parse_floatnumber s =
     (case split_first (\<lambda>c. c = CHR ''e'' \<or> c = CHR ''E'') s of
        (m, None) \<Rightarrow> parse_number m
      | (m, Some es) \<Rightarrow>
          (case parse_number m of
             None \<Rightarrow> None
           | Some q \<Rightarrow> (case parse_exponent es of None \<Rightarrow> None | Some e \<Rightarrow> Some (scale10 q e))))"

text \<open>
  \<^verbatim>\<open>float\<close> and \<^verbatim>\<open>int\<close> skip white space at both ends of a string, and their white
  space is not that of \<^verbatim>\<open>str.strip\<close>: the separators U+001C to U+001F are not skipped
  (\<^verbatim>\<open>int\<close> of \<^verbatim>\<open>5\<close> followed by U+001F raises ValueError, \<^verbatim>\<open>int\<close> of \<^verbatim>\<open>5\<close>
  followed by U+00A0 is 5).
\<close>

definition is_number_space :: "char \<Rightarrow> bool" where
  "is_number_space c = (c \<in> set [CHR 0x09, CHR 0x0A, CHR 0x0B, CHR 0x0C, CHR 0x0D, CHR '' '',
                                   CHR 0x85, CHR 0xA0])"

definition number_strip :: "string \<Rightarrow> string" where
  "number_strip s = rev (dropWhile is_number_space (rev (dropWhile is_number_space s)))"

text \<open>
  Rounding to binary64, to nearest with ties to even. For a positive rational \<open>q\<close>,
  \<open>floor_log2 q\<close> is the exponent \<open>k\<close> with \<open>2 ^ k \<le> q < 2 ^ (k + 1)\<close>. The significand
  has 53 bits, the least exponent of the last bit is \<open>-1074\<close> (subnormal numbers), and a
  value that rounds to \<open>2 ^ 1024\<close> or more is an infinity. \<open>round_float neg q\<close> is the float that
  \<^verbatim>\<open>float\<close> gives for a literal of sign \<open>neg\<close> and magnitude \<open>q\<close>.
\<close>

definition pow2 :: "int \<Rightarrow> rat" where
  "pow2 k = (if 0 \<le> k then 2 ^ nat k else 1 / 2 ^ nat (- k))"

definition round_half_even :: "rat \<Rightarrow> int" where
  "round_half_even q =
     (let f = \<lfloor>q\<rfloor>; d = q - of_int f
      in if d < 1 / 2 then f else if 1 / 2 < d then f + 1 else if even f then f else f + 1)"

definition floor_log2 :: "rat \<Rightarrow> int" where
  "floor_log2 q =
     (case quotient_of q of
        (a, b) \<Rightarrow>
          (let k = int (floorlog 2 (nat a)) - int (floorlog 2 (nat b))
           in if pow2 k \<le> q then k else k - 1))"

definition round_float :: "bool \<Rightarrow> rat \<Rightarrow> pyfloat" where
  "round_float neg q =
     (if q = 0 then (if neg then NegZero else Finite 0)
      else
        (let e = max (floor_log2 q - 52) (- 1074);
             m = round_half_even (q / pow2 e);
             v = of_int m * pow2 e
         in if 971 < e \<or> (e = 971 \<and> 2 ^ 53 \<le> m) then Infinity neg
            else if v = 0 then (if neg then NegZero else Finite 0)
            else Finite (if neg then - v else v)))"

text \<open>\<^verbatim>\<open>float(s)\<close> for a string; \<open>None\<close> stands for the ValueError.\<close>

definition py_float :: "string \<Rightarrow> pyfloat option" where
  "py_float s0 =
     (case take_sign (number_strip s0) of
        (neg, body) \<Rightarrow>
          if lower body = ''inf'' \<or> lower body = ''infinity'' then Some (Infinity neg)
          else if lower body = ''nan'' then Some NotANumber
          else (case parse_floatnumber body of
                  None \<Rightarrow> None
                | Some q \<Rightarrow> Some (round_float neg q)))"

text \<open>
  \<^verbatim>\<open>int(v)\<close>: truncation towards zero on floats, a decimal literal on strings. A literal
  of more than 4300 digits is refused (the default of \<^verbatim>\<open>sys.set_int_max_str_digits\<close>;
  underscores, sign and white space do not count).
\<close>

definition trunc :: "rat \<Rightarrow> int" where
  "trunc q = (if 0 \<le> q then \<lfloor>q\<rfloor> else \<lceil>q\<rceil>)"

fun py_int :: "cell \<Rightarrow> py_error + int" where
  "py_int CNone = Inl TypeError"
| "py_int (CBool b) = Inr (if b then 1 else 0)"
| "py_int (CInt i) = Inr i"
| "py_int (CFloat (Finite q)) = Inr (trunc q)"
| "py_int (CFloat NegZero) = Inr 0"
| "py_int (CFloat (Infinity neg)) = Inl OverflowError"
| "py_int (CFloat NotANumber) = Inl ValueError"
| "py_int (CStr s) =
     (case take_sign (number_strip s) of
        (neg, ds) \<Rightarrow>
          if digitpart ds \<and> length (filter is_digit ds) \<le> 4300
          then Inr (if neg then - int (digitpart_val ds) else int (digitpart_val ds))
          else Inl ValueError)"

section \<open>\<^verbatim>\<open>extract_number\<close>\<close>

text \<open>
  The helper of \<^verbatim>\<open>process_weights_targets_file\<close> (line 1349).
  \<^verbatim>\<open>re.search(r'([\d.]+)', s)\<close> is the leftmost longest run of digits and dots.
\<close>

definition is_num_char :: "char \<Rightarrow> bool" where
  "is_num_char c = (is_digit c \<or> c = CHR ''.'')"

definition first_number_run :: "string \<Rightarrow> string option" where
  "first_number_run s =
     (case dropWhile (\<lambda>c. \<not> is_num_char c) s of
        [] \<Rightarrow> None
      | c # cs \<Rightarrow> Some (takeWhile is_num_char (c # cs)))"

text \<open>
  \<^verbatim>\<open>pd.isna(value) or value == '' or value is None\<close> is the test for a blank value, here
  and in the default fill; the function returns \<^verbatim>\<open>None\<close> for a blank value. In the string
  branch, a value with \<^verbatim>\<open>%\<close> and no match leaves the \<^verbatim>\<open>try\<close> block and reaches the
  final \<^verbatim>\<open>return value\<close>; a match that \<^verbatim>\<open>float\<close> rejects raises, and the handler
  returns \<^verbatim>\<open>value\<close> as well. A string without \<^verbatim>\<open>%\<close> that \<^verbatim>\<open>float\<close> rejects gives
  \<^verbatim>\<open>None\<close>. Every other value is returned as it is.
\<close>

definition blank_value :: "cell \<Rightarrow> bool" where
  "blank_value v = (isna v \<or> v = CStr [] \<or> v = CNone)"

definition extract_number :: "cell \<Rightarrow> cell" where
  "extract_number v =
     (if blank_value v then CNone
      else case v of
        CStr s \<Rightarrow>
          (let value_str = strip s in
           if CHR ''%'' \<in> set value_str then
             (case first_number_run value_str of
                Some m \<Rightarrow> (case py_float m of Some x \<Rightarrow> CFloat x | None \<Rightarrow> v)
              | None \<Rightarrow> v)
           else (case py_float value_str of Some x \<Rightarrow> CFloat x | None \<Rightarrow> CNone))
      | _ \<Rightarrow> v)"

text \<open>
  The call sites (lines 1395, 1396, 1695, 1696) replace a blank cell by \<^verbatim>\<open>None\<close> before
  the call: \<^verbatim>\<open>row[col] if pd.notna(row[col]) else None\<close>.
\<close>

definition raw_value :: "cell \<Rightarrow> cell" where
  "raw_value c = (if notna c then c else CNone)"

text \<open>Whether the \<^verbatim>\<open>%\<close> branch finds a run of digits and dots that \<^verbatim>\<open>float\<close> accepts.\<close>

definition has_number :: "string \<Rightarrow> bool" where
  "has_number s =
     (case first_number_run (strip s) of None \<Rightarrow> False | Some m \<Rightarrow> py_float m \<noteq> None)"

text \<open>
  An unsigned decimal numeral: digits with at most one point and at least one digit, and
  the number it denotes.
\<close>

definition decimal_numeral :: "string \<Rightarrow> bool" where
  "decimal_numeral n =
     ((\<forall>c \<in> set n. is_num_char c) \<and> (\<exists>c \<in> set n. is_digit c)
      \<and> length (filter (\<lambda>c. c = CHR ''.'') n) \<le> 1)"

definition decimal_value :: "string \<Rightarrow> rat" where
  "decimal_value n =
     (let ip = takeWhile is_digit n; fp = drop (Suc (length ip)) n
      in of_nat (digits_val ip) + of_nat (digits_val fp) / 10 ^ length fp)"

section \<open>DataFrames\<close>

text \<open>
  A DataFrame as pandas returns it from \<^verbatim>\<open>read_csv\<close> or \<^verbatim>\<open>read_excel\<close>: the column
  labels, which are strings (pandas names an empty header cell \<^verbatim>\<open>Unnamed: k\<close>), and the
  data rows, each row holding one cell per column. Reading the file is the work of pandas
  and is not modelled; the functions below start from the frame.
  \<open>selection_object\<close> says whether the column \<^verbatim>\<open>Scorecard Measure Selection/Add Measure\<close>
  has the dtype \<^verbatim>\<open>object\<close> once its blanks are filled with \<^verbatim>\<open>False\<close>: pandas decides it
  from the cells (a column that holds a string is of dtype object).
\<close>

record frame =
  columns :: "string list"
  rows :: "cell list list"
  selection_object :: bool

definition bind_err :: "'e + 'a \<Rightarrow> ('a \<Rightarrow> 'e + 'b) \<Rightarrow> 'e + 'b" where
  "bind_err m f = (case m of Inl e \<Rightarrow> Inl e | Inr x \<Rightarrow> f x)"

definition row_cells :: "string list \<Rightarrow> cell list \<Rightarrow> string \<Rightarrow> cell list" where
  "row_cells cols row name = map snd (filter (\<lambda>p. fst p = name) (zip cols row))"

text \<open>
  \<^verbatim>\<open>row[name]\<close> raises KeyError for a label that is absent. For a label that occurs twice
  it is a Series, and the test \<^verbatim>\<open>pd.notna(...)\<close> in which the source puts every such value
  raises ValueError (the truth value of a Series is ambiguous). \<^verbatim>\<open>row.get(name, d)\<close> gives
  \<open>d\<close> for an absent label.
\<close>

definition row_item :: "string list \<Rightarrow> cell list \<Rightarrow> string \<Rightarrow> py_error + cell" where
  "row_item cols row name =
     (case row_cells cols row name of
        [] \<Rightarrow> Inl KeyError
      | [v] \<Rightarrow> Inr v
      | v # w # vs \<Rightarrow> Inl ValueError)"

definition row_get :: "string list \<Rightarrow> cell list \<Rightarrow> string \<Rightarrow> cell \<Rightarrow> py_error + cell" where
  "row_get cols row name d =
     (case row_cells cols row name of
        [] \<Rightarrow> Inr d
      | [v] \<Rightarrow> Inr v
      | v # w # vs \<Rightarrow> Inl ValueError)"

definition cell_text :: "(pyfloat \<Rightarrow> string) \<Rightarrow> cell \<Rightarrow> string" where
  "cell_text fs v = strip (py_str fs v)"

text \<open>\<^verbatim>\<open>str(row[name]).strip() if pd.notna(row[name]) else ""\<close>\<close>

definition text_item ::
  "(pyfloat \<Rightarrow> string) \<Rightarrow> string list \<Rightarrow> cell list \<Rightarrow> string \<Rightarrow> py_error + string" where
  "text_item fs cols row name =
     bind_err (row_item cols row name) (\<lambda>g.
       if notna g then bind_err (row_item cols row name) (\<lambda>v. Inr (cell_text fs v))
       else Inr [])"

text \<open>\<^verbatim>\<open>str(row[name]).strip() if pd.notna(row.get(name, '')) else ""\<close>\<close>

definition text_get ::
  "(pyfloat \<Rightarrow> string) \<Rightarrow> string list \<Rightarrow> cell list \<Rightarrow> string \<Rightarrow> py_error + string" where
  "text_get fs cols row name =
     bind_err (row_get cols row name (CStr [])) (\<lambda>g.
       if notna g then bind_err (row_item cols row name) (\<lambda>v. Inr (cell_text fs v))
       else Inr [])"

text \<open>\<^verbatim>\<open>not s or s == "nan"\<close>\<close>

definition blank_text :: "string \<Rightarrow> bool" where
  "blank_text s = (s = [] \<or> s = ''nan'')"

section \<open>\<^verbatim>\<open>read_excel_data\<close>\<close>

text \<open>
  The Record of the output sequence: a dict with the keys \<^verbatim>\<open>measure_group\<close>,
  \<^verbatim>\<open>standard_kpis\<close>, \<^verbatim>\<open>measure_display_name\<close>, \<^verbatim>\<open>definition\<close> and, in the grouping layout
  only, \<^verbatim>\<open>order\<close>.
\<close>

record out_record =
  measure_group :: string
  standard_kpis :: string
  measure_display_name :: string
  definition_text :: string
  order_value :: "int option"

text \<open>
  A loop over \<^verbatim>\<open>df.iterrows()\<close>: \<open>idx\<close> is the index label of the row, which counts the
  data rows from 0. The body appends a record or goes on to the next row; an exception
  leaves the loop.
\<close>

fun collect_rows ::
  "(nat \<Rightarrow> cell list \<Rightarrow> py_error + out_record option) \<Rightarrow> nat \<Rightarrow> cell list list
     \<Rightarrow> py_error + out_record list" where
  "collect_rows body idx [] = Inr []"
| "collect_rows body idx (row # rest) =
     bind_err (body idx row) (\<lambda>r.
     bind_err (collect_rows body (Suc idx) rest) (\<lambda>rs.
       Inr (case r of None \<Rightarrow> rs | Some x \<Rightarrow> x # rs)))"

subsection \<open>Grouping layout (lines 474 to 516)\<close>

definition internal_col :: "string list \<Rightarrow> string option" where
  "internal_col cols =
     List.find (\<lambda>col. contains ''Internal'' col \<and> contains ''Measures'' col
                       \<and> contains ''Name'' col) cols"

text \<open>
  \<^verbatim>\<open>int(row['Measure Order']) if pd.notna(row.get('Measure Order', '')) else (idx + 1)\<close>
\<close>

definition measure_order :: "string list \<Rightarrow> nat \<Rightarrow> cell list \<Rightarrow> py_error + int" where
  "measure_order cols idx row =
     bind_err (row_get cols row ''Measure Order'' (CStr [])) (\<lambda>g.
       if notna g then bind_err (row_item cols row ''Measure Order'') py_int
       else Inr (int idx + 1))"

definition grouping_row ::
  "(pyfloat \<Rightarrow> string) \<Rightarrow> string list \<Rightarrow> nat \<Rightarrow> cell list \<Rightarrow> py_error + out_record option" where
  "grouping_row fs cols idx row =
     bind_err (text_get fs cols row ''Grouping Name'') (\<lambda>grouping_name.
     bind_err (text_get fs cols row ''Client Name of Metric'') (\<lambda>client_name.
     bind_err (case internal_col cols of
                 None \<Rightarrow> Inr []
               | Some ic \<Rightarrow> text_get fs cols row ic) (\<lambda>internal_name.
     bind_err (text_get fs cols row ''Notes'') (\<lambda>notes.
     bind_err (measure_order cols idx row) (\<lambda>order_no.
       if blank_text grouping_name then Inr None
       else Inr (Some \<lparr>measure_group = grouping_name,
                        standard_kpis = internal_name,
                        measure_display_name =
                          (if client_name \<noteq> [] \<and> client_name \<noteq> ''nan'' then client_name
                           else internal_name),
                        definition_text = notes,
                        order_value = Some order_no\<rparr>))))))"

subsection \<open>Selection-flag layout (lines 517 to 566)\<close>

definition selection_col :: string where
  "selection_col = ''Scorecard Measure Selection/Add Measure''"

text \<open>\<^verbatim>\<open>v == True\<close> on a cell of a column that is not of dtype object.\<close>

definition eq_True :: "cell \<Rightarrow> bool" where
  "eq_True v = (v = CBool True \<or> v = CInt 1 \<or> v = CFloat (Finite 1))"

text \<open>
  The flag of one cell of the selection column: \<^verbatim>\<open>fillna(False)\<close>; on a column of dtype
  object \<^verbatim>\<open>astype(str).str.strip().str.lower()\<close>, the \<^verbatim>\<open>map\<close> through the dict and
  \<^verbatim>\<open>fillna(False)\<close> again; then the comparison with \<^verbatim>\<open>True\<close>.
\<close>

definition selection_flag :: "(pyfloat \<Rightarrow> string) \<Rightarrow> bool \<Rightarrow> cell \<Rightarrow> bool" where
  "selection_flag fs is_object v =
     (let filled = (if isna v then CBool False else v) in
      if is_object then
        (case map_of [(''true'', True), (''false'', False), ([], False), (''nan'', False)]
                (lower (strip (py_str fs filled))) of
           None \<Rightarrow> False
         | Some b \<Rightarrow> b)
      else eq_True filled)"

text \<open>
  The rows that the filter keeps. With the label twice the selection is a DataFrame, which
  has no \<^verbatim>\<open>dtype\<close>: the source raises. A row holds a cell for every column, so the cell
  of the selection column is there.
\<close>

definition select_rows ::
  "(pyfloat \<Rightarrow> string) \<Rightarrow> bool \<Rightarrow> string list \<Rightarrow> cell list list
     \<Rightarrow> py_error + cell list list" where
  "select_rows fs is_object cols rws =
     (case filter (\<lambda>c. c = selection_col) cols of
        [c] \<Rightarrow> Inr (filter (\<lambda>row. case row_item cols row selection_col of
                                        Inr v \<Rightarrow> selection_flag fs is_object v
                                      | Inl e \<Rightarrow> False) rws)
      | _ \<Rightarrow> Inl AttributeError)"

definition selection_row ::
  "(pyfloat \<Rightarrow> string) \<Rightarrow> string list \<Rightarrow> nat \<Rightarrow> cell list \<Rightarrow> py_error + out_record option" where
  "selection_row fs cols idx row =
     bind_err (text_item fs cols row ''Measure Group'') (\<lambda>measure_group_name.
     bind_err (text_item fs cols row ''Measure Name'') (\<lambda>measure_name.
     bind_err (text_item fs cols row ''Display Name'') (\<lambda>display_name.
     bind_err (text_get fs cols row ''Definitions'') (\<lambda>definition_str.
       if blank_text measure_group_name then Inr None
       else Inr (Some \<lparr>measure_group = measure_group_name,
                        standard_kpis = measure_name,
                        measure_display_name =
                          (if display_name \<noteq> [] \<and> display_name \<noteq> ''nan'' then display_name
                           else measure_name),
                        definition_text = definition_str,
                        order_value = None\<rparr>)))))"

subsection \<open>Plain layout (lines 567 to 605)\<close>

text \<open>\<^verbatim>\<open>str(row.iloc[k]).strip() if len(row) > k and pd.notna(row.iloc[k]) else ""\<close>\<close>

definition text_iloc :: "(pyfloat \<Rightarrow> string) \<Rightarrow> cell list \<Rightarrow> nat \<Rightarrow> string" where
  "text_iloc fs row k =
     (if k < length row \<and> notna (row ! k) then cell_text fs (row ! k) else [])"

text \<open>
  The four fields of a row (lines 572 to 592): by label when the frame has the label
  \<^verbatim>\<open>Measure Group\<close>, by position otherwise; \<^verbatim>\<open>row.iloc[0]\<close> raises IndexError on a
  frame without columns.
\<close>

definition plain_fields ::
  "(pyfloat \<Rightarrow> string) \<Rightarrow> string list \<Rightarrow> cell list
     \<Rightarrow> py_error + (string \<times> string \<times> string \<times> string)" where
  "plain_fields fs cols row =
     (if ''Measure Group'' \<in> set cols then
        bind_err (text_get fs cols row ''Measure Group'') (\<lambda>g.
        bind_err (text_get fs cols row ''Standard KPIs'') (\<lambda>k.
        bind_err (text_get fs cols row ''Measure Display Name'') (\<lambda>n.
        bind_err (text_get fs cols row ''Definition'') (\<lambda>d. Inr (g, k, n, d)))))
      else if row = [] then Inl IndexError
      else
        (let first_col_val = (if notna (row ! 0) then lower (cell_text fs (row ! 0)) else [])
         in if first_col_val \<in> set [''nan'', [], ''#ref!''] \<or> contains ''unnamed'' first_col_val
            then Inr (text_iloc fs row 1, text_iloc fs row 2, text_iloc fs row 3,
                      text_iloc fs row 4)
            else Inr (if notna (row ! 0) then cell_text fs (row ! 0) else [],
                      text_iloc fs row 1, text_iloc fs row 2, text_iloc fs row 3)))"

definition plain_row ::
  "(pyfloat \<Rightarrow> string) \<Rightarrow> string list \<Rightarrow> nat \<Rightarrow> cell list \<Rightarrow> py_error + out_record option" where
  "plain_row fs cols idx row =
     bind_err (plain_fields fs cols row)
       (\<lambda>(g, k, n, d).
          if blank_text g then Inr None
          else Inr (Some \<lparr>measure_group = g, standard_kpis = k, measure_display_name = n,
                           definition_text = d, order_value = None\<rparr>))"

subsection \<open>The function\<close>

text \<open>
  The body of the \<^verbatim>\<open>try\<close> block from line 465 on. Its argument is the outcome of the
  reading stage (lines 424 to 463): the frame, or the exception that reading raised.
\<close>

definition read_excel_data_body ::
  "(pyfloat \<Rightarrow> string) \<Rightarrow> py_error + frame \<Rightarrow> py_error + out_record list" where
  "read_excel_data_body fs reading =
     bind_err reading (\<lambda>df.
       let cols = map strip (columns df) in
       if ''Grouping Name'' \<in> set cols then
         collect_rows (grouping_row fs cols) 0 (rows df)
       else if selection_col \<in> set cols then
         bind_err (select_rows fs (selection_object df) cols (rows df)) (\<lambda>df_filtered.
           collect_rows (selection_row fs cols) 0 df_filtered)
       else collect_rows (plain_row fs cols) 0 (rows df))"

text \<open>
  What lies outside the function and can make it raise. \<open>interrupt\<close> is an exception that
  is raised from outside while the rows are processed (Python raises
  \<^verbatim>\<open>KeyboardInterrupt\<close> between two bytecodes when the user interrupts the process);
  \<open>print_error\<close> and \<open>print_exc_error\<close> are the exceptions that the two output calls of the
  handler raise, \<^verbatim>\<open>print(...)\<close> at line 607 and \<^verbatim>\<open>traceback.print_exc()\<close> at line 609
  (a closed or broken output stream). \<open>None\<close> stands for no exception.
\<close>

record environment =
  interrupt :: "py_error option"
  print_error :: "py_error option"
  print_exc_error :: "py_error option"

text \<open>
  The \<^verbatim>\<open>try\<close> block (lines 423 to 605): the reading stage, then the rows. An exception
  that leaves the reading stage is the parameter \<open>reading\<close>, and it may be of any class:
  the bare \<^verbatim>\<open>except\<close> at line 429 covers the first \<^verbatim>\<open>read_csv\<close> only, and the calls at
  lines 431, 439, 443 and 463 have no handler but the one at line 606.
\<close>

definition try_block ::
  "(pyfloat \<Rightarrow> string) \<Rightarrow> environment \<Rightarrow> py_error + frame \<Rightarrow> py_error + out_record list" where
  "try_block fs env reading =
     (case reading of
        Inl e \<Rightarrow> Inl e
      | Inr df \<Rightarrow>
          (case interrupt env of
             Some e \<Rightarrow> Inl e
           | None \<Rightarrow> read_excel_data_body fs reading))"

text \<open>
  What a call does: it returns a value or raises. The handler (lines 606 to 610) prints
  the exception, prints the traceback and returns \<^verbatim>\<open>None\<close>; an exception of one of its
  two calls leaves the function.
\<close>

datatype 'a outcome = Returns 'a | Raises py_error

definition handler :: "environment \<Rightarrow> out_record list option outcome" where
  "handler env =
     (case print_error env of
        Some e \<Rightarrow> Raises e
      | None \<Rightarrow> (case print_exc_error env of Some e \<Rightarrow> Raises e | None \<Rightarrow> Returns None))"

text \<open>
  \<^verbatim>\<open>try: ... except Exception as e: ...\<close>: the handler runs for an exception of class
  \<^verbatim>\<open>Exception\<close>; any other exception leaves the function.
\<close>

definition read_excel_data ::
  "(pyfloat \<Rightarrow> string) \<Rightarrow> environment \<Rightarrow> py_error + frame
     \<Rightarrow> out_record list option outcome" where
  "read_excel_data fs env reading =
     (case try_block fs env reading of
        Inr data \<Rightarrow> Returns (Some data)
      | Inl e \<Rightarrow> if is_exception e then handler env else Raises e)"

text \<open>Nothing is raised from outside and the output calls of the handler succeed.\<close>

definition quiet :: environment where
  "quiet = \<lparr>interrupt = None, print_error = None, print_exc_error = None\<rparr>"

subsection \<open>Notions used to state the properties\<close>

text \<open>
  The cell of a row under a label, for a label that occurs once; a row that has no cell
  there reads as blank, as pandas pads a short line of the file.
\<close>

definition cell_at :: "string list \<Rightarrow> cell list \<Rightarrow> string \<Rightarrow> cell" where
  "cell_at cols row name =
     (case row_item cols row name of Inr v \<Rightarrow> v | Inl e \<Rightarrow> CFloat NotANumber)"

definition label_once :: "string list \<Rightarrow> string \<Rightarrow> bool" where
  "label_once cols name = (length (filter (\<lambda>c. c = name) cols) = 1)"

text \<open>
  The flag as the specification words it: the boolean \<^verbatim>\<open>True\<close>, or a string that reads
  \<^verbatim>\<open>true\<close> once trimmed and lowercased.
\<close>

definition flag_true :: "cell \<Rightarrow> bool" where
  "flag_true v =
     (case v of CBool b \<Rightarrow> b | CStr s \<Rightarrow> lower (strip s) = ''true'' | _ \<Rightarrow> False)"

text \<open>
  A cell of the selection column that is a string, a boolean or blank; a string only in a
  column of dtype object.
\<close>

definition flag_cell :: "bool \<Rightarrow> cell \<Rightarrow> bool" where
  "flag_cell is_object v =
     (case v of
        CStr s \<Rightarrow> is_object
      | CBool b \<Rightarrow> True
      | CNone \<Rightarrow> True
      | CFloat f \<Rightarrow> f = NotANumber
      | CInt i \<Rightarrow> False)"

text \<open>The grouping field of a row is blank: the cell is blank, or its text is empty or \<^verbatim>\<open>nan\<close>.\<close>

definition blank_group :: "(pyfloat \<Rightarrow> string) \<Rightarrow> cell \<Rightarrow> bool" where
  "blank_group fs v = (isna v \<or> blank_text (cell_text fs v))"

text \<open>
  The primary grouping field of a row, as the loop of each layout reads it: the text that
  line 485, line 544 or lines 573, 583 and 589 assign, and that the test for an empty row
  (lines 499, 556 and 595) looks at.
\<close>

definition grouping_field ::
  "(pyfloat \<Rightarrow> string) \<Rightarrow> string list \<Rightarrow> cell list \<Rightarrow> py_error + string" where
  "grouping_field fs cols row =
     (if ''Grouping Name'' \<in> set cols then text_get fs cols row ''Grouping Name''
      else if selection_col \<in> set cols then text_item fs cols row ''Measure Group''
      else bind_err (plain_fields fs cols row) (\<lambda>(g, k, n, d). Inr g))"

text \<open>
  The rows that the loop of the layout goes through: all rows of the frame, and in the
  selection-flag layout the rows that the filter keeps.
\<close>

definition processed_rows :: "(pyfloat \<Rightarrow> string) \<Rightarrow> frame \<Rightarrow> py_error + cell list list" where
  "processed_rows fs df =
     (let cols = map strip (columns df) in
      if ''Grouping Name'' \<in> set cols then Inr (rows df)
      else if selection_col \<in> set cols
      then select_rows fs (selection_object df) cols (rows df)
      else Inr (rows df))"

section \<open>\<^verbatim>\<open>process_weights_targets_file\<close>: the setup sheet\<close>

subsection \<open>Header row detector (lines 1199 to 1269)\<close>

record column_pattern =
  keyword_list :: "string list"
  weight :: int
  max_length :: nat

definition column_patterns :: "(string \<times> column_pattern) list" where
  "column_patterns =
     [(''target'', \<lparr>keyword_list = [''target''], weight = 3, max_length = 30\<rparr>),
      (''weight'', \<lparr>keyword_list = [''weight'', ''weig''], weight = 3, max_length = 30\<rparr>),
      (''metric_name'',
         \<lparr>keyword_list = [''metric name'', ''measure name''], weight = 2, max_length = 30\<rparr>),
      (''display_name'', \<lparr>keyword_list = [''display name''], weight = 2, max_length = 30\<rparr>),
      (''retailer'', \<lparr>keyword_list = [''retailer''], weight = 1, max_length = 30\<rparr>),
      (''measure_group'',
         \<lparr>keyword_list = [''measure group'', ''grouping name''], weight = 1, max_length = 30\<rparr>),
      (''selection'', \<lparr>keyword_list = [''selection'', ''add measure''], weight = 1, max_length = 50\<rparr>)]"

text \<open>
  \<^verbatim>\<open>temp_df\<close> is read with \<^verbatim>\<open>header=None\<close>: a grid of cells.
  \<^verbatim>\<open>[str(val).strip() if pd.notna(val) else "" for val in temp_df.iloc[i].values]\<close>
\<close>

definition row_values :: "(pyfloat \<Rightarrow> string) \<Rightarrow> cell list \<Rightarrow> string list" where
  "row_values fs row = map (\<lambda>val. if notna val then strip (py_str fs val) else []) row"

definition row_lower :: "(pyfloat \<Rightarrow> string) \<Rightarrow> cell list \<Rightarrow> string list" where
  "row_lower fs row = map (\<lambda>val. if notna val then lower (strip (py_str fs val)) else []) row"

text \<open>
  The loop over the keywords of one pattern, on one cell: the \<^verbatim>\<open>break\<close> leaves this loop
  at the first keyword found in the cell, so the weight is added once for the cell.
\<close>

fun keyword_loop :: "string list \<Rightarrow> string \<Rightarrow> int \<Rightarrow> int \<Rightarrow> int" where
  "keyword_loop [] val w score = score"
| "keyword_loop (keyword # rest) val w score =
     (if contains keyword val then score + w else keyword_loop rest val w score)"

text \<open>The loop \<^verbatim>\<open>for val in row_lower\<close> of one pattern: it goes on to the next cell.\<close>

fun cell_loop :: "column_pattern \<Rightarrow> string list \<Rightarrow> int \<Rightarrow> int" where
  "cell_loop p [] score = score"
| "cell_loop p (val # vals) score =
     cell_loop p vals
       (if length val \<le> max_length p then keyword_loop (keyword_list p) val (weight p) score
        else score)"

fun pattern_loop :: "(string \<times> column_pattern) list \<Rightarrow> string list \<Rightarrow> int \<Rightarrow> int" where
  "pattern_loop [] vals score = score"
| "pattern_loop ((pattern_name, p) # ps) vals score = pattern_loop ps vals (cell_loop p vals score)"

text \<open>
  The score of a candidate row; \<open>None\<close> for a row that the loop skips with
  \<^verbatim>\<open>continue\<close>. The test \<^verbatim>\<open>empty_ratio > 0.7\<close> is written on integers: the float quotient
  of the two counts exceeds the float 0.7 exactly when ten times the number of empty cells
  exceeds seven times the number of cells, for every row width a spreadsheet has.
\<close>

definition row_score :: "(pyfloat \<Rightarrow> string) \<Rightarrow> cell list \<Rightarrow> int option" where
  "row_score fs row =
     (let vals = row_values fs row;
          non_empty_values = filter (\<lambda>v. v \<noteq> []) vals;
          long_values = filter (\<lambda>v. 50 < length v) vals;
          short_values = filter (\<lambda>v. length v < 30 \<and> v \<noteq> []) vals;
          empties = length (filter (\<lambda>v. v = []) vals);
          score0 = pattern_loop column_patterns (row_lower fs row) 0;
          score1 = (if 4 \<le> length short_values then score0 + 2 else score0);
          score2 = (if 7 * max (length vals) 1 < 10 * empties then score1 - 5 else score1)
      in if length non_empty_values < 3 then None
         else if 2 < length long_values then None
         else Some score2)"

text \<open>The loop over the first rows: \<open>(best_score, best_row)\<close> is its state.\<close>

fun scan_rows ::
  "(pyfloat \<Rightarrow> string) \<Rightarrow> nat \<Rightarrow> cell list list \<Rightarrow> int \<times> nat option \<Rightarrow> int \<times> nat option" where
  "scan_rows fs i [] best = best"
| "scan_rows fs i (row # rest) (best_score, best_row) =
     scan_rows fs (Suc i) rest
       (case row_score fs row of
          None \<Rightarrow> (best_score, best_row)
        | Some score \<Rightarrow> if best_score < score then (score, Some i) else (best_score, best_row))"

definition max_rows_to_check :: nat where
  "max_rows_to_check = 30"

definition detect_header_row :: "(pyfloat \<Rightarrow> string) \<Rightarrow> cell list list \<Rightarrow> nat" where
  "detect_header_row fs temp_df =
     (case scan_rows fs 0 (take max_rows_to_check temp_df) (0, None) of
        (best_score, Some best_row) \<Rightarrow> if 5 \<le> best_score then best_row else 2
      | (best_score, None) \<Rightarrow> 2)"

text \<open>
  The score as the specification words it: the weight of a keyword group counts once when
  at least one cell, no longer than the group's maximum, contains one of its keywords.
\<close>

definition group_matches :: "column_pattern \<Rightarrow> string list \<Rightarrow> bool" where
  "group_matches p vals =
     list_ex (\<lambda>val. length val \<le> max_length p \<and> list_ex (\<lambda>k. contains k val) (keyword_list p)) vals"

definition spec_pattern_score :: "string list \<Rightarrow> int" where
  "spec_pattern_score vals =
     sum_list (map (\<lambda>(pattern_name, p). if group_matches p vals then weight p else 0)
                 column_patterns)"

definition spec_row_score :: "(pyfloat \<Rightarrow> string) \<Rightarrow> cell list \<Rightarrow> int option" where
  "spec_row_score fs row =
     (let vals = row_values fs row;
          score0 = spec_pattern_score (row_lower fs row);
          score1 = (if 4 \<le> length (filter (\<lambda>v. length v < 30 \<and> v \<noteq> []) vals)
                    then score0 + 2 else score0);
          score2 = (if 7 * max (length vals) 1 < 10 * length (filter (\<lambda>v. v = []) vals)
                    then score1 - 5 else score1)
      in if length (filter (\<lambda>v. v \<noteq> []) vals) < 3 then None
         else if 2 < length (filter (\<lambda>v. 50 < length v) vals) then None
         else Some score2)"

subsection \<open>Selection filter of the setup sheet (lines 1277 to 1303)\<close>

text \<open>
  The setup sheet is read with the detected header row, its labels are stripped, and its
  rows go through the same filter as in \<^verbatim>\<open>read_excel_data\<close> when it has the selection
  column.
\<close>

definition filter_setup_sheet :: "(pyfloat \<Rightarrow> string) \<Rightarrow> frame \<Rightarrow> py_error + frame" where
  "filter_setup_sheet fs setup_df =
     (let cols = map strip (columns setup_df) in
      if selection_col \<in> set cols then
        bind_err (select_rows fs (selection_object setup_df) cols (rows setup_df)) (\<lambda>kept.
          Inr (setup_df\<lparr>columns := cols, rows := kept\<rparr>))
      else Inr (setup_df\<lparr>columns := cols\<rparr>))"

subsection \<open>Column mapper (lines 1305 to 1346)\<close>

record setup_columns =
  target_col :: "string option"
  metric_col :: "string option"
  display_name_col :: "string option"
  weight_col :: "string option"
  retailer_col :: "string option"

text \<open>The body of the loop \<^verbatim>\<open>for col in setup_df.columns\<close>: one \<^verbatim>\<open>if\<close>/\<^verbatim>\<open>elif\<close> chain.\<close>

definition map_column :: "setup_columns \<Rightarrow> string \<Rightarrow> setup_columns" where
  "map_column m col =
     (let col_lower = lower col in
      if contains ''target'' col_lower \<and> target_col m = None
         \<and> \<not> contains ''retailer'' col_lower
      then m\<lparr>target_col := Some col\<rparr>
      else if contains ''display'' col_lower \<and> contains ''name'' col_lower
      then m\<lparr>display_name_col := Some col\<rparr>
      else if (contains ''metric'' col_lower \<and> contains ''name'' col_lower)
              \<or> (contains ''measure'' col_lower \<and> contains ''name'' col_lower)
      then (if metric_col m = None then m\<lparr>metric_col := Some col\<rparr> else m)
      else if (contains ''metric'' col_lower \<and> contains ''weight'' col_lower)
              \<or> (contains ''measure'' col_lower \<and> contains ''weight'' col_lower)
      then (if weight_col m = None then m\<lparr>weight_col := Some col\<rparr> else m)
      else if contains ''retailer'' col_lower \<and> \<not> contains ''target'' col_lower
              \<and> \<not> contains ''weight'' col_lower
      then m\<lparr>retailer_col := Some col\<rparr>
      else m)"

definition no_columns :: setup_columns where
  "no_columns = \<lparr>target_col = None, metric_col = None, display_name_col = None,
                  weight_col = None, retailer_col = None\<rparr>"

text \<open>The truth value of a variable that holds \<^verbatim>\<open>None\<close> or a label.\<close>

definition truthy :: "string option \<Rightarrow> bool" where
  "truthy c = (case c of None \<Rightarrow> False | Some s \<Rightarrow> s \<noteq> [])"

text \<open>
  After the loop: \<^verbatim>\<open>if display_name_col: metric_col = display_name_col\<close>.
\<close>

definition locate_columns :: "string list \<Rightarrow> setup_columns" where
  "locate_columns cols =
     (let m = foldl map_column no_columns cols
      in if truthy (display_name_col m) then m\<lparr>metric_col := display_name_col m\<rparr> else m)"

text \<open>
  The status dict \<^verbatim>\<open>automation_status\<close> and the CSV file of the output. A message built by
  an f-string from a text and a list keeps the two apart.
\<close>

datatype message = Text string | TextWithList string "string list"

record run_state =
  status_message :: message
  output_csv :: "frame option"

text \<open>A step of the function either returns from it or goes on with a value.\<close>

datatype 'a step = Return bool | Continue 'a

definition required_columns ::
  "string list \<Rightarrow> run_state \<Rightarrow> setup_columns step \<times> run_state" where
  "required_columns cols st =
     (let m = locate_columns cols in
      if \<not> (truthy (target_col m) \<and> truthy (metric_col m) \<and> truthy (weight_col m))
      then (Return False,
            st\<lparr>status_message :=
                 TextWithList
                   ''Phase 2: Error: Could not find required columns in setup sheet. Found: ''
                   cols\<rparr>)
      else (Continue m,
            st\<lparr>status_message :=
                 Text (''Phase 2: Setup sheet has retailer column: ''
                       @ (if retailer_col m \<noteq> None then ''True'' else ''False''))\<rparr>))"

subsection \<open>Column mapper of the retailer sheet (lines 1659 to 1675)\<close>

record retailer_columns =
  retailer_name_col :: "string option"
  retailer_target_col :: "string option"
  retailer_weight_col :: "string option"

definition map_retailer_column :: "retailer_columns \<Rightarrow> string \<Rightarrow> retailer_columns" where
  "map_retailer_column m col =
     (let col_lower = lower col in
      if contains ''retailer'' col_lower \<and> \<not> contains ''target'' col_lower
         \<and> \<not> contains ''weight'' col_lower
      then m\<lparr>retailer_name_col := Some col\<rparr>
      else if contains ''retailer'' col_lower \<and> contains ''target'' col_lower
      then m\<lparr>retailer_target_col := Some col\<rparr>
      else if contains ''retailer'' col_lower \<and> contains ''weight'' col_lower
      then m\<lparr>retailer_weight_col := Some col\<rparr>
      else m)"

text \<open>
  When the first label is \<^verbatim>\<open>Unnamed: 0\<close>, \<^verbatim>\<open>drop(columns=[...])\<close> removes the columns
  with that label.
\<close>

definition sheet_columns :: "string list \<Rightarrow> string list" where
  "sheet_columns cols =
     (case cols of
        [] \<Rightarrow> []
      | c # cs \<Rightarrow> if c = ''Unnamed: 0'' then filter (\<lambda>x. x \<noteq> ''Unnamed: 0'') cs else c # cs)"

definition locate_retailer_columns :: "string list \<Rightarrow> retailer_columns" where
  "locate_retailer_columns cols =
     foldl map_retailer_column
       \<lparr>retailer_name_col = None, retailer_target_col = None, retailer_weight_col = None\<rparr>
       (sheet_columns cols)"

section \<open>\<^verbatim>\<open>process_weights_targets_file\<close>: overrides and defaults\<close>

subsection \<open>The override table (lines 1387 to 1431)\<close>

text \<open>
  \<^verbatim>\<open>setup_mapping\<close> is keyed by the metric name, or by the pair of retailer and metric name
  when the setup sheet has a retailer column; \<^verbatim>\<open>setup_mapping_all\<close> holds the entries of
  the retailer \<^verbatim>\<open>ALL\<close>. An entry is the dict of a target and a weight.
\<close>

datatype mapping_key = MetricKey string | RetailerKey string string

record setup_entry =
  entry_target :: cell
  entry_weight :: cell

record setup_maps =
  setup_mapping :: "mapping_key \<Rightarrow> setup_entry option"
  setup_mapping_all :: "string \<Rightarrow> setup_entry option"

definition no_maps :: setup_maps where
  "no_maps = \<lparr>setup_mapping = (\<lambda>k. None), setup_mapping_all = (\<lambda>k. None)\<rparr>"

text \<open>
  The body of the loop over the rows of the setup sheet. \<open>tc\<close>, \<open>mc\<close> and \<open>wc\<close> are the
  labels that the column mapper found, \<open>rc\<close> the label of the retailer column if there is
  one. A later row with the same key replaces the entry of an earlier one. The retailer
  name in upper case is compared with \<^verbatim>\<open>'ALL'\<close>: an upper case that is not a string of this
  model (\<open>None\<close>) is not \<^verbatim>\<open>'ALL'\<close>.
\<close>

definition add_setup_row ::
  "(pyfloat \<Rightarrow> string) \<Rightarrow> string list \<Rightarrow> string \<Rightarrow> string \<Rightarrow> string \<Rightarrow> string option
     \<Rightarrow> setup_maps \<Rightarrow> cell list \<Rightarrow> py_error + setup_maps" where
  "add_setup_row fs cols tc mc wc rc maps row =
     bind_err (text_item fs cols row mc) (\<lambda>metric_name.
     bind_err (row_item cols row tc) (\<lambda>target_cell.
     bind_err (row_item cols row wc) (\<lambda>weight_cell.
       let entry = \<lparr>entry_target = extract_number (raw_value target_cell),
                    entry_weight = extract_number (raw_value weight_cell)\<rparr>
       in if blank_text metric_name then Inr maps
          else (case rc of
                  Some retailer_label \<Rightarrow>
                    bind_err (text_item fs cols row retailer_label) (\<lambda>retailer_name.
                      if upper retailer_name = Some ''ALL''
                      then Inr (maps\<lparr>setup_mapping_all :=
                                  (setup_mapping_all maps)(lower metric_name \<mapsto> entry)\<rparr>)
                      else Inr (maps\<lparr>setup_mapping :=
                                  (setup_mapping maps)
                                    (RetailerKey (lower retailer_name) (lower metric_name)
                                       \<mapsto> entry)\<rparr>))
                | None \<Rightarrow>
                    Inr (maps\<lparr>setup_mapping :=
                           (setup_mapping maps)(MetricKey (lower metric_name) \<mapsto> entry)\<rparr>)))))"

fun build_setup_mapping ::
  "(pyfloat \<Rightarrow> string) \<Rightarrow> string list \<Rightarrow> string \<Rightarrow> string \<Rightarrow> string \<Rightarrow> string option
     \<Rightarrow> setup_maps \<Rightarrow> cell list list \<Rightarrow> py_error + setup_maps" where
  "build_setup_mapping fs cols tc mc wc rc maps [] = Inr maps"
| "build_setup_mapping fs cols tc mc wc rc maps (row # rest) =
     bind_err (add_setup_row fs cols tc mc wc rc maps row) (\<lambda>maps1.
       build_setup_mapping fs cols tc mc wc rc maps1 rest)"

subsection \<open>Step 1: metric-level overrides (lines 1438 to 1555)\<close>

text \<open>
  The export frame is the file of the portal, its labels distinct as pandas reads them.
  \<^verbatim>\<open>s.isna() | (s == '')\<close> on a cell:
\<close>

definition blank_or_empty :: "cell \<Rightarrow> bool" where
  "blank_or_empty v = (isna v \<or> v = CStr [])"

text \<open>The entry of \<^verbatim>\<open>metric_mask\<close> for one row.\<close>

definition metric_mask :: "string list \<Rightarrow> string \<Rightarrow> cell list \<Rightarrow> py_error + bool" where
  "metric_mask cols scorecard_name row =
     bind_err (if ''brand'' \<in> set cols
               then bind_err (row_item cols row ''brand'') (\<lambda>b. Inr (blank_or_empty b))
               else Inr True) (\<lambda>brand_filter.
     bind_err (row_item cols row ''scorecard'') (\<lambda>sc.
     bind_err (row_item cols row ''retailer'') (\<lambda>rt.
     bind_err (row_item cols row ''measure_group'') (\<lambda>mg.
     bind_err (row_item cols row ''measure_config'') (\<lambda>mc.
       Inr (sc = CStr scorecard_name \<and> blank_or_empty rt \<and> brand_filter \<and> blank_or_empty mg
            \<and> notna mc \<and> mc \<noteq> CStr []))))))"

text \<open>
  \<^verbatim>\<open>export_df.at[idx, name] = v\<close>, after the read of the old value that the source does
  first (KeyError for a label that is absent).
\<close>

definition label_index :: "string list \<Rightarrow> string \<Rightarrow> nat" where
  "label_index cols name = length (takeWhile (\<lambda>c. c \<noteq> name) cols)"

definition set_item :: "string list \<Rightarrow> cell list \<Rightarrow> string \<Rightarrow> cell \<Rightarrow> py_error + cell list" where
  "set_item cols row name v =
     bind_err (row_item cols row name) (\<lambda>old. Inr (row[label_index cols name := v]))"

text \<open>
  The override that Step 1 finds for a row of the mask (lines 1493 to 1526): \<open>None\<close> when
  the text of \<^verbatim>\<open>measure_config\<close> is blank or no key matches.
\<close>

definition find_setup_data ::
  "(pyfloat \<Rightarrow> string) \<Rightarrow> string list \<Rightarrow> setup_maps \<Rightarrow> bool \<Rightarrow> cell list
     \<Rightarrow> py_error + setup_entry option" where
  "find_setup_data fs cols maps has_retailer_col row =
     bind_err (text_item fs cols row ''measure_config'') (\<lambda>measure_config.
       if blank_text measure_config then Inr None
       else
         (let metric_key = lower measure_config in
          if has_retailer_col \<and> ''retailer'' \<in> set cols then
            bind_err (text_get fs cols row ''retailer'') (\<lambda>retailer_name.
              (case setup_mapping maps (RetailerKey (lower retailer_name) metric_key) of
                 Some d \<Rightarrow> Inr (Some d)
               | None \<Rightarrow> Inr (setup_mapping_all maps metric_key)))
          else Inr (setup_mapping maps (MetricKey metric_key))))"

text \<open>
  Lines 1528 to 1549: the target and the weight of the override replace the cells of the
  row, each only when it is not blank (\<^verbatim>\<open>pd.notna\<close>).
\<close>

definition override_row ::
  "(pyfloat \<Rightarrow> string) \<Rightarrow> string list \<Rightarrow> setup_maps \<Rightarrow> bool \<Rightarrow> cell list
     \<Rightarrow> py_error + cell list" where
  "override_row fs cols maps has_retailer_col row =
     bind_err (find_setup_data fs cols maps has_retailer_col row) (\<lambda>setup_data.
       case setup_data of
         None \<Rightarrow> Inr row
       | Some d \<Rightarrow>
           bind_err (if notna (entry_target d) then set_item cols row ''target'' (entry_target d)
                     else Inr row) (\<lambda>row1.
             if notna (entry_weight d) then set_item cols row1 ''weight'' (entry_weight d)
             else Inr row1))"

text \<open>A loop over the rows that updates the frame row by row; an exception leaves it.\<close>

fun map_err :: "('a \<Rightarrow> py_error + 'b) \<Rightarrow> 'a list \<Rightarrow> py_error + 'b list" where
  "map_err f [] = Inr []"
| "map_err f (x # xs) =
     bind_err (f x) (\<lambda>y. bind_err (map_err f xs) (\<lambda>ys. Inr (y # ys)))"

text \<open>
  Step 1. Without a \<^verbatim>\<open>measure_config\<close> column the function returns \<^verbatim>\<open>False\<close> (line 1457);
  the masks raise KeyError for another label that is absent.
\<close>

definition apply_metric_overrides ::
  "(pyfloat \<Rightarrow> string) \<Rightarrow> setup_maps \<Rightarrow> bool \<Rightarrow> string \<Rightarrow> frame \<Rightarrow> py_error + frame step" where
  "apply_metric_overrides fs maps has_retailer_col scorecard_name export_df =
     (let cols = columns export_df in
      if ''measure_config'' \<notin> set cols then Inr (Return False)
      else if \<not> (''scorecard'' \<in> set cols \<and> ''retailer'' \<in> set cols
                  \<and> ''measure_group'' \<in> set cols) then Inl KeyError
      else
        bind_err
          (map_err (\<lambda>row. bind_err (metric_mask cols scorecard_name row) (\<lambda>in_mask.
                            if in_mask then override_row fs cols maps has_retailer_col row
                            else Inr row))
             (rows export_df))
          (\<lambda>rows1. Inr (Continue (export_df\<lparr>rows := rows1\<rparr>))))"

subsection \<open>Step 2: defaults (lines 1557 to 1576)\<close>

text \<open>
  \<^verbatim>\<open>row.get(name)\<close> and the test for a blank value; a blank cell takes the default.
\<close>

definition fill_default :: "string list \<Rightarrow> string \<Rightarrow> cell \<Rightarrow> cell list \<Rightarrow> py_error + cell list" where
  "fill_default cols name d row =
     bind_err (row_get cols row name CNone) (\<lambda>v.
       if blank_value v then set_item cols row name d else Inr row)"

definition apply_defaults :: "frame \<Rightarrow> py_error + frame" where
  "apply_defaults export_df =
     (let cols = columns export_df in
      bind_err (if ''target'' \<in> set cols
                then map_err (fill_default cols ''target'' (CInt 50)) (rows export_df)
                else Inr (rows export_df)) (\<lambda>rows1.
      bind_err (if ''weight'' \<in> set cols
                then map_err (fill_default cols ''weight'' (CFloat (Finite 1))) rows1
                else Inr rows1) (\<lambda>rows2.
        Inr (export_df\<lparr>rows := rows2\<rparr>))))"

section \<open>Properties of the string and number helpers\<close>

lemma num_char_not_space: "is_num_char c \<Longrightarrow> \<not> is_space c"
  by (auto simp: is_num_char_def is_digit_def is_space_def)

lemma strip_id:
  assumes "s \<noteq> []" "\<not> is_space (hd s)" "\<not> is_space (last s)"
  shows "strip s = s"
proof -
  have a: "dropWhile is_space s = s"
    using assms by (cases s) auto
  have "rev s \<noteq> []" "\<not> is_space (hd (rev s))"
    using assms by (simp_all add: hd_rev)
  then have "dropWhile is_space (rev s) = rev s"
    by (cases "rev s") simp_all
  then show ?thesis by (simp add: strip_def a)
qed

lemma num_char_not_number_space: "is_num_char c \<Longrightarrow> \<not> is_number_space c"
  by (auto simp: is_num_char_def is_digit_def is_number_space_def)

lemma number_strip_id:
  assumes "s \<noteq> []" "\<not> is_number_space (hd s)" "\<not> is_number_space (last s)"
  shows "number_strip s = s"
proof -
  have a: "dropWhile is_number_space s = s"
    using assms by (cases s) auto
  have "rev s \<noteq> []" "\<not> is_number_space (hd (rev s))"
    using assms by (simp_all add: hd_rev)
  then have "dropWhile is_number_space (rev s) = rev s"
    by (cases "rev s") simp_all
  then show ?thesis by (simp add: number_strip_def a)
qed

lemma digitpart_all_digits: "ds \<noteq> [] \<Longrightarrow> \<forall>c\<in>set ds. is_digit c \<Longrightarrow> digitpart ds"
proof (induction ds rule: digitpart.induct)
  case (3 c d cs)
  then have "d \<noteq> CHR ''_''" by (auto simp: is_digit_def)
  with 3 show ?case by simp
qed simp_all

lemma filter_all_digits: "\<forall>c\<in>set ds. is_digit c \<Longrightarrow> filter is_digit ds = ds"
  by (induction ds) auto

lemma digitpart_val_digits: "\<forall>c\<in>set ds. is_digit c \<Longrightarrow> digitpart_val ds = digits_val ds"
  by (simp add: digitpart_val_def filter_all_digits)

lemma num_char_cases: "is_num_char c \<Longrightarrow> c \<in> set ''.0123456789''"
  by (auto simp: is_num_char_def is_digit_def)

lemma lower_char_num: "is_num_char c \<Longrightarrow> lower_char c = c"
  by (drule num_char_cases)
     (simp only: list.set insert_iff empty_iff, elim disjE FalseE, simp_all add: lower_char_def)

lemma lower_num: "\<forall>c\<in>set n. is_num_char c \<Longrightarrow> lower n = n"
  unfolding lower_def by (rule map_idI) (simp add: lower_char_num)

lemma decimal_numeral_cases:
  assumes "decimal_numeral n"
  obtains (whole) "n \<noteq> []" "\<forall>c\<in>set n. is_digit c"
  | (point) ip fp where "n = ip @ CHR ''.'' # fp" "\<forall>c\<in>set ip. is_digit c" "\<forall>c\<in>set fp. is_digit c"
      "ip \<noteq> [] \<or> fp \<noteq> []"
proof (cases "CHR ''.'' \<in> set n")
  case False
  then have "\<forall>c\<in>set n. is_digit c"
    using assms by (auto simp: decimal_numeral_def is_num_char_def)
  moreover have "n \<noteq> []" using assms by (auto simp: decimal_numeral_def)
  ultimately show ?thesis using whole by blast
next
  case True
  then obtain ip fp where n: "n = ip @ CHR ''.'' # fp"
    by (auto dest: split_list)
  have le: "length (filter (\<lambda>c. c = CHR ''.'') n) \<le> 1"
    using assms by (simp add: decimal_numeral_def)
  have "filter (\<lambda>c. c = CHR ''.'') ip = []" "filter (\<lambda>c. c = CHR ''.'') fp = []"
    using le by (simp_all add: n)
  then have nd: "CHR ''.'' \<notin> set ip" "CHR ''.'' \<notin> set fp"
    by (auto simp: filter_empty_conv)
  have ip: "\<forall>c\<in>set ip. is_digit c" and fp: "\<forall>c\<in>set fp. is_digit c"
    using assms nd by (auto simp: decimal_numeral_def is_num_char_def n)
  have "\<exists>c\<in>set n. is_digit c" using assms by (simp add: decimal_numeral_def)
  then have "ip \<noteq> [] \<or> fp \<noteq> []"
    by (auto simp: n is_digit_def)
  with n ip fp show ?thesis using point by blast
qed

lemma split_first_none:
  assumes "\<forall>c\<in>set s. \<not> P c"
  shows "split_first P s = (s, None)"
proof -
  have d: "dropWhile (\<lambda>c. \<not> P c) s = []" and t: "takeWhile (\<lambda>c. \<not> P c) s = s"
    using assms by simp_all
  show ?thesis unfolding split_first_def d t by simp
qed

lemma split_first_at: "\<forall>c\<in>set a. \<not> P c \<Longrightarrow> P x \<Longrightarrow> split_first P (a @ x # b) = (a, Some b)"
  by (simp add: split_first_def takeWhile_append2 dropWhile_append2)

lemma digit_not_point: "is_digit c \<Longrightarrow> c \<noteq> CHR ''.''"
  by (auto simp: is_digit_def)

lemma num_char_not_letter:
  "is_num_char c \<Longrightarrow> c \<noteq> CHR ''e'' \<and> c \<noteq> CHR ''E'' \<and> c \<noteq> CHR ''i'' \<and> c \<noteq> CHR ''n''
     \<and> c \<noteq> CHR ''-'' \<and> c \<noteq> CHR ''+'' \<and> c \<noteq> CHR ''%''"
  by (drule num_char_cases) (simp only: list.set insert_iff empty_iff, elim disjE FalseE, simp_all)

lemma digits_val_Nil: "digits_val [] = 0"
  by (simp add: digits_val_def)

lemma digitpart_val_Nil: "digitpart_val [] = 0"
  by (simp add: digitpart_val_def digits_val_def)

lemma parse_number_whole:
  assumes "n \<noteq> []" "\<forall>c\<in>set n. is_digit c"
  shows "parse_number n = Some (decimal_value n)"
proof -
  have "\<forall>c\<in>set n. \<not> c = CHR ''.''" using assms(2) digit_not_point by blast
  then have sp: "split_first (\<lambda>c. c = CHR ''.'') n = (n, None)"
    by (rule split_first_none)
  have tw: "takeWhile is_digit n = n" using assms(2) by (simp add: takeWhile_eq_all_conv)
  have dp: "digitpart n" using assms by (rule digitpart_all_digits)
  have dv: "digitpart_val n = digits_val n" using assms(2) by (rule digitpart_val_digits)
  show ?thesis
    unfolding parse_number_def sp decimal_value_def tw
    by (simp add: dp dv digits_val_Nil)
qed

lemma parse_number_point:
  assumes "\<forall>c\<in>set ip. is_digit c" "\<forall>c\<in>set fp. is_digit c" "ip \<noteq> [] \<or> fp \<noteq> []"
  shows "parse_number (ip @ CHR ''.'' # fp) = Some (decimal_value (ip @ CHR ''.'' # fp))"
proof -
  have "\<forall>c\<in>set ip. \<not> c = CHR ''.''" using assms(1) digit_not_point by blast
  then have sp: "split_first (\<lambda>c. c = CHR ''.'') (ip @ CHR ''.'' # fp) = (ip, Some fp)"
    by (rule split_first_at) simp
  have "\<not> is_digit CHR ''.''" using digit_not_point by blast
  then have tw: "takeWhile is_digit (ip @ CHR ''.'' # fp) = ip"
    using assms(1) by (simp add: takeWhile_append2)
  have v0: "digitpart_val ip = digits_val ip" "digitpart_val fp = digits_val fp"
    using assms by (simp_all add: digitpart_val_digits)
  have ok: "(ip = [] \<and> digitpart fp) \<or> (digitpart ip \<and> (fp = [] \<or> digitpart fp))"
    using assms digitpart_all_digits by blast
  have fl: "filter is_digit fp = fp" using assms(2) by (rule filter_all_digits)
  show ?thesis
    unfolding parse_number_def sp decimal_value_def tw
    using ok by (simp add: v0 fl)
qed

lemma parse_number_decimal:
  assumes "decimal_numeral n"
  shows "parse_number n = Some (decimal_value n)"
  using assms
proof (cases rule: decimal_numeral_cases)
  case whole
  then show ?thesis by (simp add: parse_number_whole)
next
  case (point ip fp)
  then show ?thesis by (simp add: parse_number_point)
qed

lemma take_sign_num: "n \<noteq> [] \<Longrightarrow> is_num_char (hd n) \<Longrightarrow> take_sign n = (False, n)"
  by (cases n) (auto simp: take_sign_def dest: num_char_not_letter)

lemma decimal_numeral_chars:
  "decimal_numeral n \<Longrightarrow> n \<noteq> [] \<and> (\<forall>c\<in>set n. is_num_char c)"
  by (auto simp: decimal_numeral_def)

lemma py_float_decimal:
  assumes "decimal_numeral n"
  shows "py_float n = Some (round_float False (decimal_value n))"
proof -
  from assms have ne: "n \<noteq> []" and nc: "\<forall>c\<in>set n. is_num_char c"
    by (simp_all add: decimal_numeral_chars)
  have h: "is_num_char (hd n)" "is_num_char (last n)" using ne nc by simp_all
  have st: "number_strip n = n"
    using ne h by (intro number_strip_id) (simp_all add: num_char_not_number_space)
  have ts: "take_sign n = (False, n)" using ne h by (simp add: take_sign_num)
  have lo: "lower n = n" using nc by (rule lower_num)
  have "CHR ''i'' \<notin> set n" "CHR ''n'' \<notin> set n"
    using nc num_char_not_letter by blast+
  then have sp: "n \<noteq> ''inf''" "n \<noteq> ''infinity''" "n \<noteq> ''nan''" by auto
  have "\<forall>c\<in>set n. \<not> (c = CHR ''e'' \<or> c = CHR ''E'')"
    using nc num_char_not_letter by blast
  then have "split_first (\<lambda>c. c = CHR ''e'' \<or> c = CHR ''E'') n = (n, None)"
    by (rule split_first_none)
  then have "parse_floatnumber n = Some (decimal_value n)"
    by (simp add: parse_floatnumber_def parse_number_decimal[OF assms])
  then show ?thesis by (simp add: py_float_def st ts lo sp)
qed

lemma first_number_run_percent:
  assumes "n \<noteq> []" "\<forall>c\<in>set n. is_num_char c"
  shows "first_number_run (n @ ''%'') = Some n"
proof -
  obtain c cs where n: "n = c # cs" using assms(1) by (cases n) auto
  have pc: "\<not> is_num_char CHR ''%''" using num_char_not_letter by blast
  have "takeWhile is_num_char (n @ ''%'') = n"
    using assms(2) pc by (simp add: takeWhile_append2)
  then show ?thesis using assms(2) by (simp add: first_number_run_def n)
qed

lemma strip_percent:
  assumes "n \<noteq> []" "\<forall>c\<in>set n. is_num_char c"
  shows "strip (n @ ''%'') = n @ ''%''"
proof (rule strip_id)
  show "n @ ''%'' \<noteq> []" by simp
  have "is_num_char (hd n)" using assms by simp
  then show "\<not> is_space (hd (n @ ''%''))" using assms(1) by (simp add: num_char_not_space)
  show "\<not> is_space (last (n @ ''%''))" by (simp add: is_space_def)
qed

lemma mem_dropWhile: "x \<in> set xs \<Longrightarrow> \<not> P x \<Longrightarrow> x \<in> set (dropWhile P xs)"
  by (induction xs) auto

lemma mem_strip: "x \<in> set s \<Longrightarrow> \<not> is_space x \<Longrightarrow> x \<in> set (strip s)"
  by (simp add: strip_def mem_dropWhile)

lemma set_strip: "set (strip s) \<subseteq> set s"
proof -
  have "set (strip s) \<subseteq> set (rev (dropWhile is_space s))"
    unfolding strip_def using set_dropWhileD by fastforce
  also have "\<dots> \<subseteq> set s" using set_dropWhileD by fastforce
  finally show ?thesis .
qed

lemma first_number_run_Some:
  assumes "first_number_run s = Some m"
  shows "m \<noteq> []" "set m \<subseteq> set s" "\<forall>c\<in>set m. is_num_char c"
proof -
  obtain c cs where d: "dropWhile (\<lambda>c. \<not> is_num_char c) s = c # cs"
    and m: "m = takeWhile is_num_char (c # cs)"
    using assms by (auto simp: first_number_run_def split: list.splits)
  have "is_num_char c" using d hd_dropWhile[of "\<lambda>c. \<not> is_num_char c" s] by simp
  then show "m \<noteq> []" by (simp add: m)
  have "set m \<subseteq> set (c # cs)" unfolding m using set_takeWhileD by fastforce
  also have "\<dots> \<subseteq> set s" unfolding d[symmetric] using set_dropWhileD by fastforce
  finally show "set m \<subseteq> set s" .
  show "\<forall>c\<in>set m. is_num_char c" unfolding m using set_takeWhileD by fastforce
qed

lemma digitpart_hd: "digitpart s \<Longrightarrow> s \<noteq> [] \<and> is_digit (hd s)"
  by (induction s rule: digitpart.induct) auto

lemma digitpart_has_digit: "digitpart s \<Longrightarrow> \<exists>c\<in>set s. is_digit c"
  using digitpart_hd hd_in_set by blast

lemma parse_number_has_digit:
  assumes "parse_number s = Some q"
  shows "\<exists>c\<in>set s. is_digit c"
proof -
  obtain ip r where sp: "split_first (\<lambda>c. c = CHR ''.'') s = (ip, r)" by force
  have ip: "set ip \<subseteq> set s"
    using sp set_takeWhileD by (fastforce simp: split_first_def)
  have fp: "set fp \<subseteq> set s" if "r = Some fp" for fp
  proof -
    from that sp obtain c where "dropWhile (\<lambda>c. \<not> c = CHR ''.'') s = c # fp"
      by (auto simp: split_first_def split: list.splits)
    then have "set fp \<subseteq> set (dropWhile (\<lambda>c. \<not> c = CHR ''.'') s)" by auto
    then show ?thesis using set_dropWhileD by fastforce
  qed
  have "digitpart ip \<or> (\<exists>fp. r = Some fp \<and> digitpart fp)"
    using assms sp by (auto simp: parse_number_def split: option.splits if_splits)
  then show ?thesis using ip fp digitpart_has_digit by blast
qed

lemma py_float_num_has_digit:
  assumes "py_float m = Some x" "\<forall>c\<in>set m. is_num_char c" "m \<noteq> []"
  shows "\<exists>c\<in>set m. is_digit c"
proof -
  have h: "is_num_char (hd m)" "is_num_char (last m)" using assms by simp_all
  have st: "number_strip m = m"
    using assms(3) h by (intro number_strip_id) (simp_all add: num_char_not_number_space)
  have ts: "take_sign m = (False, m)" using assms(3) h by (simp add: take_sign_num)
  have lo: "lower m = m" using assms(2) by (rule lower_num)
  have "CHR ''i'' \<notin> set m" "CHR ''n'' \<notin> set m"
    using assms(2) num_char_not_letter by blast+
  then have sp: "m \<noteq> ''inf''" "m \<noteq> ''infinity''" "m \<noteq> ''nan''" by auto
  have "\<forall>c\<in>set m. \<not> (c = CHR ''e'' \<or> c = CHR ''E'')"
    using assms(2) num_char_not_letter by blast
  then have "split_first (\<lambda>c. c = CHR ''e'' \<or> c = CHR ''E'') m = (m, None)"
    by (rule split_first_none)
  then have "parse_floatnumber m = parse_number m"
    by (simp add: parse_floatnumber_def)
  then obtain q where "parse_number m = Some q"
    using assms(1) by (auto simp: py_float_def st ts lo sp split: option.splits)
  then show ?thesis by (rule parse_number_has_digit)
qed

lemma has_number_digit:
  assumes "has_number s"
  shows "\<exists>c\<in>set s. is_digit c"
proof -
  from assms obtain m x where m: "first_number_run (strip s) = Some m" and x: "py_float m = Some x"
    by (auto simp: has_number_def split: option.splits)
  from first_number_run_Some[OF m] have "m \<noteq> []" "set m \<subseteq> set (strip s)" "\<forall>c\<in>set m. is_num_char c"
    by simp_all
  with x py_float_num_has_digit obtain c where "c \<in> set m" "is_digit c" by blast
  with \<open>set m \<subseteq> set (strip s)\<close> set_strip show ?thesis by blast
qed

section \<open>Properties of \<^verbatim>\<open>extract_number\<close>\<close>

text \<open>
  Claim C1, corrected. The claim reads "a percentage string yields its numeric value": for
  a signed numeral it does not. On a string that contains \<^verbatim>\<open>%\<close> the function returns
  \<^verbatim>\<open>float\<close> of the first run of digits and dots of the string, and a sign, an exponent
  or a thousands separator is not part of that run: \<^verbatim>\<open>"-5%"\<close> gives 5.0 where
  \<^verbatim>\<open>float("-5")\<close> is -5.0, \<^verbatim>\<open>"1e3%"\<close> and \<^verbatim>\<open>"1,000%"\<close> give 1.0.
\<close>

theorem extract_number_percent_counterexample:
  "extract_number (CStr ''-5%'') = CFloat (Finite 5)
   \<and> py_float ''-5'' = Some (Finite (- 5))
   \<and> extract_number (CStr ''1e3%'') = CFloat (Finite 1)
   \<and> py_float ''1e3'' = Some (Finite 1000)
   \<and> extract_number (CStr ''1,000%'') = CFloat (Finite 1)"
  by code_simp

text \<open>
  Claim C1, as it holds. For every string \<open>s\<close> that contains \<^verbatim>\<open>%\<close>: if the first run of
  digits and dots of the stripped string is \<open>m\<close> and \<^verbatim>\<open>float(m)\<close> is \<open>x\<close>, the result is
  \<open>x\<close>. In particular, for an unsigned decimal numeral \<open>n\<close> the string \<open>n%\<close> gives the
  float nearest to the number that \<open>n\<close> denotes, an infinity when that number is too large
  (\<^verbatim>\<open>"50%"\<close> gives 50.0, there is no division by 100). An int and a float that is not NaN
  are returned as they are, whatever their size, so 0.5 stays 0.5. NaN, the blank cell of
  pandas, never reaches the function: the call sites pass \<^verbatim>\<open>None\<close> for it.
\<close>

theorem extract_number_percent_and_numeric:
  "(\<forall>s m x. CHR ''%'' \<in> set s \<and> first_number_run (strip s) = Some m \<and> py_float m = Some x
        \<longrightarrow> extract_number (CStr s) = CFloat x)
   \<and> (\<forall>n. decimal_numeral n \<longrightarrow>
        extract_number (CStr (n @ ''%'')) = CFloat (round_float False (decimal_value n)))
   \<and> (\<forall>i. extract_number (CInt i) = CInt i)
   \<and> (\<forall>f. f \<noteq> NotANumber \<longrightarrow> extract_number (CFloat f) = CFloat f)
   \<and> (\<forall>c. raw_value c \<noteq> CFloat NotANumber)"
proof (intro conjI allI impI)
  fix s m x
  assume a: "CHR ''%'' \<in> set s \<and> first_number_run (strip s) = Some m \<and> py_float m = Some x"
  then have ne: "s \<noteq> []" by auto
  have "\<not> is_space CHR ''%''" by (simp add: is_space_def)
  with a have pc: "CHR ''%'' \<in> set (strip s)" by (simp add: mem_strip)
  have nb: "\<not> blank_value (CStr s)" using ne by (simp add: blank_value_def isna_def)
  show "extract_number (CStr s) = CFloat x"
    using a pc nb by (simp add: extract_number_def Let_def)
next
  fix n assume d: "decimal_numeral n"
  then have ne: "n \<noteq> []" and nc: "\<forall>c\<in>set n. is_num_char c"
    by (simp_all add: decimal_numeral_chars)
  show "extract_number (CStr (n @ ''%'')) = CFloat (round_float False (decimal_value n))"
    by (simp add: extract_number_def blank_value_def isna_def strip_percent[OF ne nc]
        first_number_run_percent[OF ne nc] py_float_decimal[OF d])
next
  fix i show "extract_number (CInt i) = CInt i" by (simp add: extract_number_def blank_value_def isna_def)
next
  fix f :: pyfloat assume "f \<noteq> NotANumber"
  then show "extract_number (CFloat f) = CFloat f"
    by (simp add: extract_number_def blank_value_def isna_def)
next
  fix c show "raw_value c \<noteq> CFloat NotANumber"
    by (simp add: raw_value_def notna_def isna_def)
qed

theorem extract_number_percent_and_numeric_witness:
  "decimal_numeral ''50'' \<and> extract_number (CStr ''50%'') = CFloat (Finite 50)
   \<and> first_number_run (strip '' about 12.5 % '') = Some ''12.5''
   \<and> extract_number (CStr '' about 12.5 % '') = CFloat (Finite (25 / 2))
   \<and> extract_number (CFloat (Finite (1/2))) = CFloat (Finite (1/2))"
proof -
  have d: "decimal_numeral ''50''" by (simp add: decimal_numeral_def is_num_char_def is_digit_def)
  have v: "round_float False (decimal_value ''50'') = Finite 50" by code_simp
  have f: "Finite (1/2) \<noteq> NotANumber" by simp
  have p: "CHR ''%'' \<in> set '' about 12.5 % ''" by simp
  have r: "first_number_run (strip '' about 12.5 % '') = Some ''12.5''" by code_simp
  have x: "py_float ''12.5'' = Some (Finite (25 / 2))" by code_simp
  from extract_number_percent_and_numeric
  have "extract_number (CStr (''50'' @ ''%'')) = CFloat (round_float False (decimal_value ''50''))"
    and "extract_number (CStr '' about 12.5 % '') = CFloat (Finite (25 / 2))"
    and "extract_number (CFloat (Finite (1/2))) = CFloat (Finite (1/2))"
    using d f p r x by blast+
  with d v r show ?thesis by simp
qed

text \<open>
  Claim C9. A string that contains \<^verbatim>\<open>%\<close> and in which the \<^verbatim>\<open>%\<close> branch finds no run of
  digits and dots that \<^verbatim>\<open>float\<close> accepts is returned as it is, not as \<^verbatim>\<open>None\<close>, and the
  result is not blank for the default fill. A string without any digit is such a string.
\<close>

theorem extract_number_percent_without_number:
  "(CHR ''%'' \<in> set s \<and> \<not> has_number s \<longrightarrow>
      extract_number (CStr s) = CStr s \<and> \<not> blank_value (extract_number (CStr s)))
   \<and> ((\<forall>c\<in>set s. \<not> is_digit c) \<longrightarrow> \<not> has_number s)"
proof (intro conjI impI)
  assume a: "CHR ''%'' \<in> set s \<and> \<not> has_number s"
  then have ne: "s \<noteq> []" by auto
  have "\<not> is_space CHR ''%''" by (simp add: is_space_def)
  with a have pc: "CHR ''%'' \<in> set (strip s)" by (simp add: mem_strip)
  have nb: "\<not> blank_value (CStr s)" using ne by (simp add: blank_value_def isna_def)
  from a have "first_number_run (strip s) = None \<or>
     (\<exists>m. first_number_run (strip s) = Some m \<and> py_float m = None)"
    by (auto simp: has_number_def split: option.splits)
  then show "extract_number (CStr s) = CStr s"
    using pc nb by (auto simp: extract_number_def Let_def)
  then show "\<not> blank_value (extract_number (CStr s))" using nb by simp
next
  assume "\<forall>c\<in>set s. \<not> is_digit c"
  then show "\<not> has_number s" using has_number_digit by blast
qed

theorem extract_number_percent_without_number_witness:
  "CHR ''%'' \<in> set ''n/a %'' \<and> \<not> has_number ''n/a %''
   \<and> extract_number (CStr ''n/a %'') = CStr ''n/a %''
   \<and> \<not> blank_value (extract_number (CStr ''n/a %''))"
proof -
  have d: "\<forall>c\<in>set ''n/a %''. \<not> is_digit c" by (simp add: is_digit_def)
  have p: "CHR ''%'' \<in> set ''n/a %''" by simp
  from extract_number_percent_without_number[of "''n/a %''"] d p show ?thesis by blast
qed

section \<open>Properties of \<^verbatim>\<open>read_excel_data\<close>\<close>

lemma bind_err_Inr:
  "bind_err m f = Inr y \<longleftrightarrow> (\<exists>x. m = Inr x \<and> f x = Inr y)"
  by (cases m) (simp_all add: bind_err_def)

lemma bind_err_Inl_first: "m = Inl e \<Longrightarrow> bind_err m f = Inl e"
  by (simp add: bind_err_def)

lemma select_rows_length:
  "select_rows fs ob cols rws = Inr kept \<Longrightarrow> length kept \<le> length rws"
  by (auto simp: select_rows_def split: list.splits)

lemma collect_rows_mem:
  assumes "collect_rows body i0 rws = Inr recs" "r \<in> set recs"
  shows "\<exists>k<length rws. body (i0 + k) (rws ! k) = Inr (Some r)"
  using assms
proof (induction rws arbitrary: i0 recs)
  case Nil
  then show ?case by simp
next
  case (Cons row rest)
  from Cons.prems(1) obtain x rs where x: "body i0 row = Inr x"
    and rs: "collect_rows body (Suc i0) rest = Inr rs"
    and recs: "recs = (case x of None \<Rightarrow> rs | Some y \<Rightarrow> y # rs)"
    by (auto simp: bind_err_Inr)
  show ?case
  proof (cases "r \<in> set rs")
    case True
    from Cons.IH[OF rs True] obtain k where "k < length rest"
      "body (Suc i0 + k) (rest ! k) = Inr (Some r)" by blast
    then have "Suc k < length (row # rest)" "body (i0 + Suc k) ((row # rest) ! Suc k) = Inr (Some r)"
      by simp_all
    then show ?thesis by blast
  next
    case False
    with recs Cons.prems(2) have "x = Some r" by (cases x) auto
    with x have "body (i0 + 0) ((row # rest) ! 0) = Inr (Some r)" by simp
    then show ?thesis by blast
  qed
qed

lemma collect_rows_error:
  assumes "k < length rws" "body (i0 + k) (rws ! k) = Inl e"
  shows "\<exists>e'. collect_rows body i0 rws = Inl e'"
  using assms
proof (induction rws arbitrary: i0 k)
  case Nil
  then show ?case by simp
next
  case (Cons row rest)
  show ?case
  proof (cases k)
    case 0
    with Cons.prems show ?thesis by (simp add: bind_err_def)
  next
    case (Suc j)
    with Cons.prems have "j < length rest" "body (Suc i0 + j) (rest ! j) = Inl e" by simp_all
    from Cons.IH[OF this] obtain e' where "collect_rows body (Suc i0) rest = Inl e'" by blast
    then show ?thesis by (cases "body i0 row") (simp_all add: bind_err_def)
  qed
qed

lemma measure_order_Inr:
  assumes "measure_order cols idx row = Inr n"
  shows "\<exists>v. row_item cols row ''Measure Order'' = Inr v
           \<and> ((isna v \<and> n = int idx + 1) \<or> (notna v \<and> py_int v = Inr n))"
proof (cases "row_cells cols row ''Measure Order''")
  case Nil
  then have "row_get cols row ''Measure Order'' (CStr []) = Inr (CStr [])"
    "row_item cols row ''Measure Order'' = Inl KeyError"
    by (simp_all add: row_get_def row_item_def)
  with assms show ?thesis
    by (simp add: measure_order_def bind_err_def notna_def isna_def)
next
  case (Cons v vs)
  show ?thesis
  proof (cases vs)
    case Nil
    with Cons have g: "row_get cols row ''Measure Order'' (CStr []) = Inr v"
      and i: "row_item cols row ''Measure Order'' = Inr v"
      by (simp_all add: row_get_def row_item_def)
    with assms show ?thesis
      by (auto simp: measure_order_def bind_err_def notna_def split: if_splits)
  next
    case (Cons w ws)
    with \<open>row_cells cols row ''Measure Order'' = v # vs\<close>
    have "row_get cols row ''Measure Order'' (CStr []) = Inl ValueError"
      by (simp add: row_get_def)
    with assms show ?thesis by (simp add: measure_order_def bind_err_def)
  qed
qed

lemma row_item_get:
  "row_item cols row name = Inr v \<Longrightarrow> row_get cols row name d = Inr v"
  by (auto simp: row_item_def row_get_def split: list.splits)

lemma measure_order_Inl:
  assumes "row_item cols row ''Measure Order'' = Inr v" "notna v" "py_int v = Inl e"
  shows "measure_order cols idx row = Inl e"
  using assms by (simp add: measure_order_def row_item_get bind_err_def)

lemma grouping_row_order_error:
  assumes "measure_order cols idx row = Inl e"
  shows "\<exists>e'. grouping_row fs cols idx row = Inl e'"
proof -
  have "grouping_row fs cols idx row \<noteq> Inr x" for x
    using assms by (auto simp: grouping_row_def bind_err_Inr)
  then show ?thesis by (cases "grouping_row fs cols idx row") auto
qed

lemma grouping_row_order:
  assumes "grouping_row fs cols idx row = Inr (Some r)"
  shows "\<exists>n. measure_order cols idx row = Inr n \<and> order_value r = Some n"
  using assms by (auto simp: grouping_row_def bind_err_Inr split: if_splits)

lemma read_excel_data_grouping:
  assumes "''Grouping Name'' \<in> set (map strip (columns df))"
  shows "read_excel_data_body fs (Inr df)
         = collect_rows (grouping_row fs (map strip (columns df))) 0 (rows df)"
  using assms by (simp add: read_excel_data_body_def bind_err_def)

lemma row_cells_length:
  "length row = length cols \<Longrightarrow>
   length (row_cells cols row name) = length (filter (\<lambda>c. c = name) cols)"
proof (induction cols arbitrary: row)
  case Nil
  then show ?case by (simp add: row_cells_def)
next
  case (Cons c cols)
  then obtain v vs where "row = v # vs" "length vs = length cols" by (cases row) auto
  with Cons.IH[of vs] show ?case by (simp add: row_cells_def)
qed

lemma row_cells_once:
  assumes "length row = length cols" "label_once cols name"
  obtains v where "row_cells cols row name = [v]"
proof -
  have "length (row_cells cols row name) = 1"
    using assms by (simp add: row_cells_length label_once_def)
  then obtain v where "row_cells cols row name = [v]"
    by (cases "row_cells cols row name") auto
  then show ?thesis by (rule that)
qed

lemma row_item_once:
  assumes "length row = length cols" "label_once cols name"
  shows "row_item cols row name = Inr (cell_at cols row name)"
    and "row_get cols row name d = Inr (cell_at cols row name)"
proof -
  from assms obtain v where "row_cells cols row name = [v]" by (rule row_cells_once)
  then show "row_item cols row name = Inr (cell_at cols row name)"
    and "row_get cols row name d = Inr (cell_at cols row name)"
    by (simp_all add: row_item_def row_get_def cell_at_def)
qed


lemma blank_text_cell:
  "blank_text (if notna v then cell_text fs v else []) = blank_group fs v"
  by (simp add: blank_group_def blank_text_def notna_def)

lemma lower_True: "lower (strip ''True'') = ''true''" "lower (strip ''False'') = ''false''"
  by code_simp+

lemma selection_flag_spec:
  assumes "flag_cell ob v"
  shows "selection_flag fs ob v = flag_true v"
proof (cases v)
  case CNone
  then show ?thesis
    by (simp add: selection_flag_def flag_true_def isna_def eq_True_def lower_True)
next
  case (CBool b)
  then show ?thesis
    by (cases b) (simp_all add: selection_flag_def flag_true_def isna_def eq_True_def lower_True)
next
  case (CInt i)
  with assms show ?thesis by (simp add: flag_cell_def)
next
  case (CFloat f)
  with assms have "v = CFloat NotANumber" by (simp add: flag_cell_def)
  then show ?thesis
    by (simp add: selection_flag_def flag_true_def isna_def eq_True_def lower_True)
next
  case (CStr s)
  with assms have ob by (simp add: flag_cell_def)
  have "(case map_of [(''true'', True), (''false'', False), ([], False), (''nan'', False)] t of
           None \<Rightarrow> False | Some b \<Rightarrow> b) = (t = ''true'')" for t
    by simp
  with CStr \<open>ob\<close> show ?thesis
    by (simp add: selection_flag_def flag_true_def isna_def)
qed

lemma select_rows_once:
  assumes "label_once cols selection_col"
    and "\<forall>row\<in>set rws. length row = length cols
            \<and> flag_cell ob (cell_at cols row selection_col)"
  shows "select_rows fs ob cols rws
         = Inr (filter (\<lambda>row. flag_true (cell_at cols row selection_col)) rws)"
proof -
  from assms(1) obtain c where c: "filter (\<lambda>c. c = selection_col) cols = [c]"
    by (cases "filter (\<lambda>c. c = selection_col) cols") (auto simp: label_once_def)
  have "filter (\<lambda>row. case row_item cols row selection_col of
                         Inr v \<Rightarrow> selection_flag fs ob v | Inl e \<Rightarrow> False) rws
        = filter (\<lambda>row. flag_true (cell_at cols row selection_col)) rws"
  proof (rule filter_cong[OF refl])
    fix row assume "row \<in> set rws"
    with assms(2) have l: "length row = length cols"
      and f: "flag_cell ob (cell_at cols row selection_col)" by simp_all
    show "(case row_item cols row selection_col of
             Inr v \<Rightarrow> selection_flag fs ob v | Inl e \<Rightarrow> False)
          = flag_true (cell_at cols row selection_col)"
      by (simp add: row_item_once[OF l assms(1)] selection_flag_spec[OF f])
  qed
  then show ?thesis by (simp add: select_rows_def c)
qed



lemma filter_setup_sheet_rows:
  assumes "cols = map strip (columns setup_df)" "label_once cols selection_col"
    and "\<forall>row\<in>set (rows setup_df). length row = length cols
            \<and> flag_cell (selection_object setup_df) (cell_at cols row selection_col)"
  shows "filter_setup_sheet fs setup_df
         = Inr (setup_df\<lparr>columns := cols,
                  rows := filter (\<lambda>row. flag_true (cell_at cols row selection_col))
                            (rows setup_df)\<rparr>)"
proof -
  from assms(2) have "filter (\<lambda>c. c = selection_col) cols \<noteq> []"
    by (auto simp: label_once_def)
  then have "selection_col \<in> set cols" by (auto simp: filter_empty_conv)
  then show ?thesis
    using assms(1) select_rows_once[OF assms(2,3), of fs]
    by (simp add: filter_setup_sheet_def bind_err_def Let_def)
qed

lemma bind_err_Inl:
  "bind_err m f = Inl e \<longleftrightarrow> m = Inl e \<or> (\<exists>x. m = Inr x \<and> f x = Inl e)"
  by (cases m) (simp_all add: bind_err_def)

lemma row_item_exception: "row_item cols row name = Inl e \<Longrightarrow> is_exception e"
  by (auto simp: row_item_def is_exception_def split: list.splits)

lemma row_get_exception: "row_get cols row name d = Inl e \<Longrightarrow> is_exception e"
  by (auto simp: row_get_def is_exception_def split: list.splits)

lemma py_int_exception: "py_int v = Inl e \<Longrightarrow> is_exception e"
  by (cases v rule: py_int.cases) (auto simp: is_exception_def split: prod.splits if_splits)

lemma text_item_exception: "text_item fs cols row name = Inl e \<Longrightarrow> is_exception e"
  by (auto simp: text_item_def bind_err_Inl dest: row_item_exception split: if_splits)

lemma text_get_exception: "text_get fs cols row name = Inl e \<Longrightarrow> is_exception e"
  by (auto simp: text_get_def bind_err_Inl dest: row_item_exception row_get_exception
      split: if_splits)

lemma measure_order_exception: "measure_order cols idx row = Inl e \<Longrightarrow> is_exception e"
  by (auto simp: measure_order_def bind_err_Inl
      dest: row_item_exception row_get_exception py_int_exception split: if_splits)

lemma grouping_row_exception: "grouping_row fs cols idx row = Inl e \<Longrightarrow> is_exception e"
  by (auto simp: grouping_row_def bind_err_Inl
      dest: text_get_exception measure_order_exception split: if_splits option.splits)

lemma selection_row_exception: "selection_row fs cols idx row = Inl e \<Longrightarrow> is_exception e"
  by (auto simp: selection_row_def bind_err_Inl
      dest: text_get_exception text_item_exception split: if_splits)

lemma plain_fields_exception: "plain_fields fs cols row = Inl e \<Longrightarrow> is_exception e"
  by (auto simp: plain_fields_def bind_err_Inl Let_def is_exception_def
      dest: text_get_exception split: if_splits)

lemma plain_row_exception: "plain_row fs cols idx row = Inl e \<Longrightarrow> is_exception e"
  by (auto simp: plain_row_def bind_err_Inl dest: plain_fields_exception split: if_splits)

lemma select_rows_exception: "select_rows fs ob cols rws = Inl e \<Longrightarrow> is_exception e"
  by (auto simp: select_rows_def is_exception_def split: list.splits)

lemma collect_rows_exception:
  assumes "\<And>k row e. body k row = Inl e \<Longrightarrow> is_exception e"
  shows "collect_rows body idx rws = Inl e \<Longrightarrow> is_exception e"
proof (induction rws arbitrary: idx)
  case Nil
  then show ?case by simp
next
  case (Cons row rest)
  from Cons.prems have "body idx row = Inl e \<or> collect_rows body (Suc idx) rest = Inl e"
    by (auto simp: bind_err_Inl)
  then show ?case using assms Cons.IH by blast
qed

lemma read_excel_data_body_exception:
  assumes "read_excel_data_body fs (Inr df) = Inl e"
  shows "is_exception e"
proof -
  let ?cols = "map strip (columns df)"
  consider (g) "''Grouping Name'' \<in> set ?cols"
    | (s) "''Grouping Name'' \<notin> set ?cols" "selection_col \<in> set ?cols"
    | (p) "''Grouping Name'' \<notin> set ?cols" "selection_col \<notin> set ?cols" by blast
  then show ?thesis
  proof cases
    case g
    with assms have "collect_rows (grouping_row fs ?cols) 0 (rows df) = Inl e"
      by (simp add: read_excel_data_body_def bind_err_def)
    then show ?thesis using collect_rows_exception grouping_row_exception by blast
  next
    case s
    with assms have "select_rows fs (selection_object df) ?cols (rows df) = Inl e
      \<or> (\<exists>kept. collect_rows (selection_row fs ?cols) 0 kept = Inl e)"
      by (auto simp: read_excel_data_body_def bind_err_Inl Let_def bind_err_def split: sum.splits)
    then show ?thesis
      using collect_rows_exception selection_row_exception select_rows_exception by blast
  next
    case p
    with assms have "collect_rows (plain_row fs ?cols) 0 (rows df) = Inl e"
      by (simp add: read_excel_data_body_def bind_err_def)
    then show ?thesis using collect_rows_exception plain_row_exception by blast
  qed
qed

lemma read_excel_data_Some:
  "read_excel_data fs env reading = Returns (Some recs) \<longleftrightarrow> try_block fs env reading = Inr recs"
  by (auto simp: read_excel_data_def handler_def split: sum.splits option.splits)

lemma try_block_Inr:
  "try_block fs env reading = Inr recs \<Longrightarrow> read_excel_data_body fs reading = Inr recs"
  by (auto simp: try_block_def split: sum.splits option.splits)

text \<open>
  Claim C10, corrected. The claim reads "never raises": the handler catches the class
  \<^verbatim>\<open>Exception\<close> only, and it makes two output calls of its own. An interrupt while the
  file is read leaves the function as an exception, and so does a failure of the
  \<^verbatim>\<open>print\<close> call of the handler.
\<close>

theorem read_excel_data_raises_counterexample:
  "read_excel_data (\<lambda>f. []) quiet (Inl KeyboardInterrupt) = Raises KeyboardInterrupt
   \<and> read_excel_data (\<lambda>f. []) (quiet\<lparr>print_error := Some IOError\<rparr>) (Inl ValueError) = Raises IOError"
  by code_simp

text \<open>
  Claim C10, as it holds. The call returns the list of Records exactly when the \<^verbatim>\<open>try\<close>
  block runs to its end. When the block raises an exception of class \<^verbatim>\<open>Exception\<close> the
  handler runs: the call returns \<^verbatim>\<open>None\<close> if both output calls of the handler succeed, and
  raises the exception of the first one that fails otherwise. An exception of another class
  (\<^verbatim>\<open>KeyboardInterrupt\<close>, \<^verbatim>\<open>SystemExit\<close>) leaves the function. Every exception that
  processing the rows of a frame raises by itself is of class \<^verbatim>\<open>Exception\<close>; so a call
  returns, with the Records or with \<^verbatim>\<open>None\<close>, whenever the two output calls succeed and
  neither the reading stage nor an interrupt brings an exception of another class.
\<close>

theorem read_excel_data_outcome:
  "(\<forall>data. (read_excel_data fs env reading = Returns (Some data))
              = (try_block fs env reading = Inr data))
   \<and> (\<forall>e. try_block fs env reading = Inl e \<and> is_exception e \<longrightarrow>
          read_excel_data fs env reading = handler env)
   \<and> (\<forall>e. try_block fs env reading = Inl e \<and> \<not> is_exception e \<longrightarrow>
          read_excel_data fs env reading = Raises e)
   \<and> (print_error env = None \<and> print_exc_error env = None \<longrightarrow> handler env = Returns None)
   \<and> (\<forall>e. print_error env = Some e \<longrightarrow> handler env = Raises e)
   \<and> (\<forall>e. print_error env = None \<and> print_exc_error env = Some e \<longrightarrow> handler env = Raises e)
   \<and> (\<forall>df e. read_excel_data_body fs (Inr df) = Inl e \<longrightarrow> is_exception e)
   \<and> (print_error env = None \<and> print_exc_error env = None
        \<and> (\<forall>e. reading = Inl e \<longrightarrow> is_exception e)
        \<and> (\<forall>e. interrupt env = Some e \<longrightarrow> is_exception e) \<longrightarrow>
        read_excel_data fs env reading = Returns None
        \<or> (\<exists>data. read_excel_data fs env reading = Returns (Some data)))"
proof -
  have 1: "\<forall>data. (read_excel_data fs env reading = Returns (Some data))
              = (try_block fs env reading = Inr data)"
    by (simp add: read_excel_data_Some)
  have 2: "\<forall>e. try_block fs env reading = Inl e \<and> is_exception e \<longrightarrow>
          read_excel_data fs env reading = handler env"
    by (simp add: read_excel_data_def)
  have 3: "\<forall>e. try_block fs env reading = Inl e \<and> \<not> is_exception e \<longrightarrow>
          read_excel_data fs env reading = Raises e"
    by (simp add: read_excel_data_def)
  have 4: "print_error env = None \<and> print_exc_error env = None \<longrightarrow> handler env = Returns None"
    by (simp add: handler_def)
  have 5: "\<forall>e. print_error env = Some e \<longrightarrow> handler env = Raises e"
    by (simp add: handler_def)
  have 6: "\<forall>e. print_error env = None \<and> print_exc_error env = Some e \<longrightarrow> handler env = Raises e"
    by (simp add: handler_def)
  have 7: "\<forall>df e. read_excel_data_body fs (Inr df) = Inl e \<longrightarrow> is_exception e"
    using read_excel_data_body_exception by blast
  have 8: "print_error env = None \<and> print_exc_error env = None
        \<and> (\<forall>e. reading = Inl e \<longrightarrow> is_exception e)
        \<and> (\<forall>e. interrupt env = Some e \<longrightarrow> is_exception e) \<longrightarrow>
        read_excel_data fs env reading = Returns None
        \<or> (\<exists>data. read_excel_data fs env reading = Returns (Some data))"
  proof
    assume a: "print_error env = None \<and> print_exc_error env = None
        \<and> (\<forall>e. reading = Inl e \<longrightarrow> is_exception e)
        \<and> (\<forall>e. interrupt env = Some e \<longrightarrow> is_exception e)"
    show "read_excel_data fs env reading = Returns None
        \<or> (\<exists>data. read_excel_data fs env reading = Returns (Some data))"
    proof (cases "try_block fs env reading")
      case (Inr data)
      then show ?thesis by (simp add: read_excel_data_def)
    next
      case (Inl e)
      have "is_exception e"
      proof (cases reading)
        case r: (Inl e0)
        with Inl have "e = e0" by (simp add: try_block_def)
        with a r show ?thesis by simp
      next
        case r: (Inr df)
        show ?thesis
        proof (cases "interrupt env")
          case None
          with Inl r have "read_excel_data_body fs (Inr df) = Inl e" by (simp add: try_block_def)
          then show ?thesis by (rule read_excel_data_body_exception)
        next
          case (Some e1)
          with Inl r have "e = e1" by (simp add: try_block_def)
          with a Some show ?thesis by simp
        qed
      qed
      with Inl a show ?thesis by (simp add: read_excel_data_def handler_def)
    qed
  qed
  show ?thesis
    by (rule conjI[OF 1 conjI[OF 2 conjI[OF 3 conjI[OF 4 conjI[OF 5 conjI[OF 6 conjI[OF 7 8]]]]]]])
qed

theorem read_excel_data_outcome_witness:
  "read_excel_data (\<lambda>f. []) quiet (Inl IOError) = Returns None
   \<and> read_excel_data (\<lambda>f. []) quiet
       (Inr \<lparr>columns = [''Grouping Name'', ''Client Name of Metric'', ''Notes'', ''Measure Order''],
             rows = [[CStr ''Content'', CStr ''Images'', CStr ''note'', CStr ''second'']],
             selection_object = False\<rparr>) = Returns None
   \<and> read_excel_data_body (\<lambda>f. [])
       (Inr \<lparr>columns = [''Grouping Name'', ''Client Name of Metric'', ''Notes'', ''Measure Order''],
             rows = [[CStr ''Content'', CStr ''Images'', CStr ''note'', CStr ''second'']],
             selection_object = False\<rparr>) = Inl ValueError
   \<and> is_exception ValueError
   \<and> read_excel_data (\<lambda>f. []) quiet (Inl SystemExit) = Raises SystemExit"
proof -
  let ?df = "\<lparr>columns = [''Grouping Name'', ''Client Name of Metric'', ''Notes'', ''Measure Order''],
             rows = [[CStr ''Content'', CStr ''Images'', CStr ''note'', CStr ''second'']],
             selection_object = False\<rparr>"
  have q: "print_error quiet = None \<and> print_exc_error quiet = None" "interrupt quiet = None"
    by (simp_all add: quiet_def)
  have t1: "try_block (\<lambda>f. []) quiet (Inl IOError) = Inl IOError" by (simp add: try_block_def)
  have x1: "is_exception IOError" by (simp add: is_exception_def)
  have b: "read_excel_data_body (\<lambda>f. []) (Inr ?df) = Inl ValueError" by code_simp
  then have t2: "try_block (\<lambda>f. []) quiet (Inr ?df) = Inl ValueError"
    using q by (simp add: try_block_def)
  have t3: "try_block (\<lambda>f. []) quiet (Inl SystemExit) = Inl SystemExit"
    by (simp add: try_block_def)
  have x3: "\<not> is_exception SystemExit" by (simp add: is_exception_def)
  from read_excel_data_outcome[of "\<lambda>f. []" quiet "Inl IOError"] t1 x1 q
  have r1: "read_excel_data (\<lambda>f. []) quiet (Inl IOError) = Returns None" by metis
  from read_excel_data_outcome[of "\<lambda>f. []" quiet "Inr ?df"] b
  have x2: "is_exception ValueError" by blast
  from read_excel_data_outcome[of "\<lambda>f. []" quiet "Inr ?df"] t2 x2 q
  have r2: "read_excel_data (\<lambda>f. []) quiet (Inr ?df) = Returns None" by metis
  from read_excel_data_outcome[of "\<lambda>f. []" quiet "Inl SystemExit"] t3 x3
  have r3: "read_excel_data (\<lambda>f. []) quiet (Inl SystemExit) = Raises SystemExit" by blast
  from r1 r2 b x2 r3 show ?thesis by blast
qed

lemma py_int_white_space:
  "py_int (CStr (''5'' @ [CHR 0xA0])) = Inr 5"
  "py_int (CStr (''5'' @ [CHR 0x1F])) = Inl ValueError"
  "strip (''5'' @ [CHR 0x1F, CHR 0xA0, CHR 0x85]) = ''5''"
  by code_simp+

lemma grouping_row_field:
  assumes "grouping_row fs cols idx row = Inr x"
  shows "\<exists>g. text_get fs cols row ''Grouping Name'' = Inr g
           \<and> (case x of None \<Rightarrow> blank_text g
               | Some r \<Rightarrow> \<not> blank_text g \<and> measure_group r = g)"
  using assms by (auto simp: grouping_row_def bind_err_Inr split: if_splits)

lemma selection_row_field:
  assumes "selection_row fs cols idx row = Inr x"
  shows "\<exists>g. text_item fs cols row ''Measure Group'' = Inr g
           \<and> (case x of None \<Rightarrow> blank_text g
               | Some r \<Rightarrow> \<not> blank_text g \<and> measure_group r = g)"
  using assms by (auto simp: selection_row_def bind_err_Inr split: if_splits)

lemma plain_row_field:
  assumes "plain_row fs cols idx row = Inr x"
  shows "\<exists>g. bind_err (plain_fields fs cols row) (\<lambda>(g, k, n, d). Inr g) = Inr g
           \<and> (case x of None \<Rightarrow> blank_text g
               | Some r \<Rightarrow> \<not> blank_text g \<and> measure_group r = g)"
  using assms by (auto simp: plain_row_def bind_err_Inr split: if_splits)

lemma collect_rows_fields:
  assumes "collect_rows body i rws = Inr recs"
    and "\<And>k row x. body k row = Inr x \<Longrightarrow>
           \<exists>g. gf row = Inr g
             \<and> (case x of None \<Rightarrow> blank_text g
                 | Some r \<Rightarrow> \<not> blank_text g \<and> measure_group r = g)"
  shows "\<exists>gs. map gf rws = map Inr gs
           \<and> map measure_group recs = filter (\<lambda>g. \<not> blank_text g) gs"
  using assms(1)
proof (induction rws arbitrary: i recs)
  case Nil
  then show ?case by simp
next
  case (Cons row rest)
  from Cons.prems obtain x rs where x: "body i row = Inr x"
    and rs: "collect_rows body (Suc i) rest = Inr rs"
    and recs: "recs = (case x of None \<Rightarrow> rs | Some y \<Rightarrow> y # rs)"
    by (auto simp: bind_err_Inr)
  from Cons.IH[OF rs] obtain gs where gs: "map gf rest = map Inr gs"
    "map measure_group rs = filter (\<lambda>g. \<not> blank_text g) gs" by blast
  from assms(2)[OF x] obtain g where g: "gf row = Inr g"
    "case x of None \<Rightarrow> blank_text g | Some r \<Rightarrow> \<not> blank_text g \<and> measure_group r = g"
    by blast
  have "map gf (row # rest) = map Inr (g # gs)" using g(1) gs(1) by simp
  moreover have "map measure_group recs = filter (\<lambda>g. \<not> blank_text g) (g # gs)"
    using g(2) gs(2) recs by (cases x) simp_all
  ultimately show ?case by blast
qed

lemma read_excel_data_body_fields:
  assumes "read_excel_data_body fs reading = Inr recs"
  shows "\<exists>df rws gs. reading = Inr df \<and> processed_rows fs df = Inr rws
           \<and> map (grouping_field fs (map strip (columns df))) rws = map Inr gs
           \<and> map measure_group recs = filter (\<lambda>g. \<not> blank_text g) gs"
proof -
  from assms obtain df where df: "reading = Inr df"
    by (auto simp: read_excel_data_body_def bind_err_Inr)
  let ?cols = "map strip (columns df)"
  consider (g) "''Grouping Name'' \<in> set ?cols"
    | (s) "''Grouping Name'' \<notin> set ?cols" "selection_col \<in> set ?cols"
    | (p) "''Grouping Name'' \<notin> set ?cols" "selection_col \<notin> set ?cols" by blast
  then show ?thesis
  proof cases
    case g
    with assms df have c: "collect_rows (grouping_row fs ?cols) 0 (rows df) = Inr recs"
      by (simp add: read_excel_data_body_def bind_err_def)
    have f: "grouping_field fs ?cols = (\<lambda>row. text_get fs ?cols row ''Grouping Name'')"
      using g by (simp add: grouping_field_def fun_eq_iff)
    have p: "processed_rows fs df = Inr (rows df)" using g by (simp add: processed_rows_def)
    from collect_rows_fields[OF c, of "\<lambda>row. text_get fs ?cols row ''Grouping Name''"]
      grouping_row_field
    obtain gs where "map (\<lambda>row. text_get fs ?cols row ''Grouping Name'') (rows df) = map Inr gs"
      "map measure_group recs = filter (\<lambda>g. \<not> blank_text g) gs" by blast
    with df p f show ?thesis by auto
  next
    case s
    with assms df obtain kept where k: "select_rows fs (selection_object df) ?cols (rows df) = Inr kept"
      and c: "collect_rows (selection_row fs ?cols) 0 kept = Inr recs"
      by (auto simp: read_excel_data_body_def bind_err_Inr Let_def)
    have f: "grouping_field fs ?cols = (\<lambda>row. text_item fs ?cols row ''Measure Group'')"
      using s by (simp add: grouping_field_def fun_eq_iff)
    have p: "processed_rows fs df = Inr kept" using s k by (simp add: processed_rows_def)
    from collect_rows_fields[OF c, of "\<lambda>row. text_item fs ?cols row ''Measure Group''"]
      selection_row_field
    obtain gs where "map (\<lambda>row. text_item fs ?cols row ''Measure Group'') kept = map Inr gs"
      "map measure_group recs = filter (\<lambda>g. \<not> blank_text g) gs" by blast
    with df p f show ?thesis by auto
  next
    case p
    with assms df have c: "collect_rows (plain_row fs ?cols) 0 (rows df) = Inr recs"
      by (simp add: read_excel_data_body_def bind_err_def)
    have f: "grouping_field fs ?cols
             = (\<lambda>row. bind_err (plain_fields fs ?cols row) (\<lambda>(g, k, n, d). Inr g))"
      using p by (simp add: grouping_field_def fun_eq_iff)
    have pr: "processed_rows fs df = Inr (rows df)" using p by (simp add: processed_rows_def)
    from collect_rows_fields[OF c,
        of "\<lambda>row. bind_err (plain_fields fs ?cols row) (\<lambda>(g, k, n, d). Inr g)"]
      plain_row_field
    obtain gs where
      "map (\<lambda>row. bind_err (plain_fields fs ?cols row) (\<lambda>(g, k, n, d). Inr g)) (rows df)
       = map Inr gs"
      "map measure_group recs = filter (\<lambda>g. \<not> blank_text g) gs" by blast
    with df pr f show ?thesis by auto
  qed
qed

text \<open>
  Claim C5. In each of the three layouts, every Record that \<^verbatim>\<open>read_excel_data\<close> returns has a
  \<^verbatim>\<open>measure_group\<close> that is neither empty nor the string \<^verbatim>\<open>nan\<close>. A row whose grouping
  field is blank is dropped: when the call returns Records, every row that the layout
  processes has a grouping field, and the \<^verbatim>\<open>measure_group\<close> values of the Records are, in
  the order of the rows, the grouping fields that are not blank. So each processed row with
  a grouping field that is not blank gives one Record, and a row with a blank one gives
  none.
\<close>

theorem read_excel_data_measure_group:
  assumes "read_excel_data fs env reading = Returns (Some recs)"
  shows "(\<forall>r\<in>set recs. measure_group r \<noteq> [] \<and> measure_group r \<noteq> ''nan'')
         \<and> (\<exists>df rws gs. reading = Inr df \<and> processed_rows fs df = Inr rws
               \<and> length rws \<le> length (rows df)
               \<and> map (grouping_field fs (map strip (columns df))) rws = map Inr gs
               \<and> map measure_group recs = filter (\<lambda>g. \<not> blank_text g) gs)"
proof -
  from assms have "try_block fs env reading = Inr recs"
    by (simp add: read_excel_data_Some)
  then have b: "read_excel_data_body fs reading = Inr recs"
    by (rule try_block_Inr)
  from read_excel_data_body_fields[OF b] obtain df rws gs where df: "reading = Inr df"
    and p: "processed_rows fs df = Inr rws"
    and g: "map (grouping_field fs (map strip (columns df))) rws = map Inr gs"
    and m: "map measure_group recs = filter (\<lambda>g. \<not> blank_text g) gs" by blast
  have l: "length rws \<le> length (rows df)"
    using p select_rows_length
    by (fastforce simp: processed_rows_def Let_def split: if_splits)
  have "set (map measure_group recs) \<subseteq> {g. \<not> blank_text g}"
    unfolding m by auto
  then have "\<forall>r\<in>set recs. \<not> blank_text (measure_group r)" by auto
  then have "\<forall>r\<in>set recs. measure_group r \<noteq> [] \<and> measure_group r \<noteq> ''nan''"
    by (simp add: blank_text_def)
  with df p l g m show ?thesis by blast
qed

theorem read_excel_data_measure_group_witness:
  "read_excel_data (\<lambda>f. []) quiet
     (Inr \<lparr>columns = [''Measure Group'', ''Standard KPIs'', ''Measure Display Name'', ''Definition''],
           rows = [[CStr ''Availability'', CStr ''kpi_1'', CStr ''In Stock %'', CStr ''defn text''],
                   [CFloat NotANumber, CFloat NotANumber, CFloat NotANumber, CFloat NotANumber],
                   [CStr [CHR 0xA0], CStr ''kpi_2'', CStr ''Images'', CFloat NotANumber]],
           selection_object = False\<rparr>)
   = Returns (Some [\<lparr>measure_group = ''Availability'', standard_kpis = ''kpi_1'',
                     measure_display_name = ''In Stock %'', definition_text = ''defn text'',
                     order_value = None\<rparr>])
   \<and> ''Availability'' \<noteq> [] \<and> ''Availability'' \<noteq> ''nan''
   \<and> map (grouping_field (\<lambda>f. [])
            [''Measure Group'', ''Standard KPIs'', ''Measure Display Name'', ''Definition''])
        [[CStr ''Availability'', CStr ''kpi_1'', CStr ''In Stock %'', CStr ''defn text''],
         [CFloat NotANumber, CFloat NotANumber, CFloat NotANumber, CFloat NotANumber],
         [CStr [CHR 0xA0], CStr ''kpi_2'', CStr ''Images'', CFloat NotANumber]]
     = [Inr ''Availability'', Inr [], Inr []]"
proof -
  let ?df = "\<lparr>columns = [''Measure Group'', ''Standard KPIs'', ''Measure Display Name'', ''Definition''],
           rows = [[CStr ''Availability'', CStr ''kpi_1'', CStr ''In Stock %'', CStr ''defn text''],
                   [CFloat NotANumber, CFloat NotANumber, CFloat NotANumber, CFloat NotANumber],
                   [CStr [CHR 0xA0], CStr ''kpi_2'', CStr ''Images'', CFloat NotANumber]],
           selection_object = False\<rparr>"
  let ?r = "\<lparr>measure_group = ''Availability'', standard_kpis = ''kpi_1'',
                     measure_display_name = ''In Stock %'', definition_text = ''defn text'',
                     order_value = None\<rparr>"
  have e: "read_excel_data (\<lambda>f. []) quiet (Inr ?df) = Returns (Some [?r])"
    by code_simp
  have f: "map (grouping_field (\<lambda>f. [])
            [''Measure Group'', ''Standard KPIs'', ''Measure Display Name'', ''Definition''])
        (rows ?df) = [Inr ''Availability'', Inr [], Inr []]"
    by code_simp
  from read_excel_data_measure_group[OF e] have "measure_group ?r \<noteq> [] \<and> measure_group ?r \<noteq> ''nan''"
    by simp
  with e f show ?thesis by simp
qed

text \<open>
  Claim C7, corrected. The claim reads "an unparseable order cell is recovered as a per-row
  fallback and is never fatal for the whole file": with the order cell \<^verbatim>\<open>second\<close> in the
  second row there is no Record with order 2, and none for the first row either; the call
  returns \<^verbatim>\<open>None\<close>.
\<close>

theorem grouping_layout_order_counterexample:
  "read_excel_data (\<lambda>f. []) quiet
     (Inr \<lparr>columns = [''Grouping Name'', ''Client Name of Metric'', ''Internal Measures Name'',
                      ''Notes'', ''Measure Order''],
           rows = [[CStr ''Availability'', CStr ''In Stock'', CStr ''in_stock'', CStr ''note'', CInt 1],
                   [CStr ''Content'', CStr ''Images'', CStr ''image_count'', CStr ''note'',
                    CStr ''second'']],
           selection_object = False\<rparr>)
   = Returns None"
  by code_simp

text \<open>
  Claim C7, as the code has it. In the grouping layout every Record comes from a data row;
  its order is \<^verbatim>\<open>int\<close> of the Measure Order cell when that cell is not blank, and the
  index of the row plus one (the 1-based row position) when it is blank. A cell that is not
  blank and that \<^verbatim>\<open>int\<close> rejects is not recovered row by row: the call returns no Records
  for any row of the file, and it returns \<^verbatim>\<open>None\<close> when nothing is raised from outside and
  the output calls of the handler succeed.
\<close>

theorem grouping_layout_order:
  assumes "''Grouping Name'' \<in> set (map strip (columns df))"
  shows "(\<forall>recs r. read_excel_data fs env (Inr df) = Returns (Some recs) \<and> r \<in> set recs \<longrightarrow>
            (\<exists>k v. k < length (rows df)
               \<and> grouping_row fs (map strip (columns df)) k (rows df ! k) = Inr (Some r)
               \<and> row_item (map strip (columns df)) (rows df ! k) ''Measure Order'' = Inr v
               \<and> ((isna v \<and> order_value r = Some (int k + 1))
                    \<or> (notna v \<and> (\<exists>n. py_int v = Inr n \<and> order_value r = Some n)))))
       \<and> (\<forall>k v e. k < length (rows df)
               \<and> row_item (map strip (columns df)) (rows df ! k) ''Measure Order'' = Inr v
               \<and> notna v \<and> py_int v = Inl e \<longrightarrow>
            (\<forall>recs. read_excel_data fs env (Inr df) \<noteq> Returns (Some recs))
            \<and> (interrupt env = None \<and> print_error env = None \<and> print_exc_error env = None
                 \<longrightarrow> read_excel_data fs env (Inr df) = Returns None))"
proof -
  let ?cols = "map strip (columns df)"
  have A: "\<forall>recs r. read_excel_data fs env (Inr df) = Returns (Some recs) \<and> r \<in> set recs \<longrightarrow>
            (\<exists>k v. k < length (rows df)
               \<and> grouping_row fs ?cols k (rows df ! k) = Inr (Some r)
               \<and> row_item ?cols (rows df ! k) ''Measure Order'' = Inr v
               \<and> ((isna v \<and> order_value r = Some (int k + 1))
                    \<or> (notna v \<and> (\<exists>n. py_int v = Inr n \<and> order_value r = Some n))))"
  proof (intro allI impI)
    fix recs r
    assume a: "read_excel_data fs env (Inr df) = Returns (Some recs) \<and> r \<in> set recs"
    then have "try_block fs env (Inr df) = Inr recs"
      by (simp add: read_excel_data_Some)
    then have "read_excel_data_body fs (Inr df) = Inr recs"
      by (rule try_block_Inr)
    then have "collect_rows (grouping_row fs ?cols) 0 (rows df) = Inr recs"
      using read_excel_data_grouping[OF assms] by simp
    from collect_rows_mem[OF this] a obtain k where k: "k < length (rows df)"
      and g: "grouping_row fs ?cols k (rows df ! k) = Inr (Some r)" by auto
    from grouping_row_order[OF g] obtain n where n: "measure_order ?cols k (rows df ! k) = Inr n"
      and o: "order_value r = Some n" by blast
    from measure_order_Inr[OF n] obtain v where
      "row_item ?cols (rows df ! k) ''Measure Order'' = Inr v"
      "(isna v \<and> n = int k + 1) \<or> (notna v \<and> py_int v = Inr n)" by blast
    with k g o show "\<exists>k v. k < length (rows df)
               \<and> grouping_row fs ?cols k (rows df ! k) = Inr (Some r)
               \<and> row_item ?cols (rows df ! k) ''Measure Order'' = Inr v
               \<and> ((isna v \<and> order_value r = Some (int k + 1))
                    \<or> (notna v \<and> (\<exists>n. py_int v = Inr n \<and> order_value r = Some n)))"
      by blast
  qed
  have B: "\<forall>k v e. k < length (rows df)
               \<and> row_item ?cols (rows df ! k) ''Measure Order'' = Inr v
               \<and> notna v \<and> py_int v = Inl e \<longrightarrow>
            (\<forall>recs. read_excel_data fs env (Inr df) \<noteq> Returns (Some recs))
            \<and> (interrupt env = None \<and> print_error env = None \<and> print_exc_error env = None
                 \<longrightarrow> read_excel_data fs env (Inr df) = Returns None)"
  proof (intro allI impI)
    fix k v e
    assume a: "k < length (rows df)
               \<and> row_item ?cols (rows df ! k) ''Measure Order'' = Inr v
               \<and> notna v \<and> py_int v = Inl e"
    then have "measure_order ?cols k (rows df ! k) = Inl e" by (simp add: measure_order_Inl)
    then obtain e' where "grouping_row fs ?cols (0 + k) (rows df ! k) = Inl e'"
      using grouping_row_order_error by fastforce
    with a obtain e2 where "collect_rows (grouping_row fs ?cols) 0 (rows df) = Inl e2"
      using collect_rows_error by blast
    then have b: "read_excel_data_body fs (Inr df) = Inl e2"
      using read_excel_data_grouping[OF assms] by simp
    then have x: "is_exception e2" by (rule read_excel_data_body_exception)
    have 1: "\<forall>recs. read_excel_data fs env (Inr df) \<noteq> Returns (Some recs)"
    proof (intro allI notI)
      fix recs assume "read_excel_data fs env (Inr df) = Returns (Some recs)"
      then have "try_block fs env (Inr df) = Inr recs" by (simp add: read_excel_data_Some)
      then have "read_excel_data_body fs (Inr df) = Inr recs" by (rule try_block_Inr)
      with b show False by simp
    qed
    have 2: "interrupt env = None \<and> print_error env = None \<and> print_exc_error env = None
                 \<longrightarrow> read_excel_data fs env (Inr df) = Returns None"
      using b x by (simp add: read_excel_data_def try_block_def handler_def)
    from 1 2 show "(\<forall>recs. read_excel_data fs env (Inr df) \<noteq> Returns (Some recs))
            \<and> (interrupt env = None \<and> print_error env = None \<and> print_exc_error env = None
                 \<longrightarrow> read_excel_data fs env (Inr df) = Returns None)" by (rule conjI)
  qed
  show ?thesis by (rule conjI[OF A B])
qed

theorem grouping_layout_order_witness:
  "read_excel_data (\<lambda>f. []) quiet
     (Inr \<lparr>columns = [''Grouping Name'', ''Client Name of Metric'', ''Internal Measures Name'',
                      ''Notes'', ''Measure Order''],
           rows = [[CStr ''Content'', CStr ''Images'', CStr ''image_count'', CStr ''note'',
                    CFloat NotANumber]],
           selection_object = False\<rparr>)
   = Returns (Some [\<lparr>measure_group = ''Content'', standard_kpis = ''image_count'',
                     measure_display_name = ''Images'', definition_text = ''note'',
                     order_value = Some 1\<rparr>])
   \<and> (\<exists>k v. k < 1 \<and> isna v \<and> Some (1::int) = Some (int k + 1))
   \<and> py_int (CStr (''5'' @ [CHR 0x1F])) = Inl ValueError
   \<and> read_excel_data (\<lambda>f. []) quiet
     (Inr \<lparr>columns = [''Grouping Name'', ''Client Name of Metric'', ''Internal Measures Name'',
                      ''Notes'', ''Measure Order''],
           rows = [[CStr ''Content'', CStr ''Images'', CStr ''image_count'', CStr ''note'',
                    CStr (''5'' @ [CHR 0x1F])]],
           selection_object = False\<rparr>)
   = Returns None"
proof -
  let ?cols = "[''Grouping Name'', ''Client Name of Metric'', ''Internal Measures Name'',
                      ''Notes'', ''Measure Order'']"
  let ?row1 = "[CStr ''Content'', CStr ''Images'', CStr ''image_count'', CStr ''note'',
                    CFloat NotANumber]"
  let ?row2 = "[CStr ''Content'', CStr ''Images'', CStr ''image_count'', CStr ''note'',
                    CStr (''5'' @ [CHR 0x1F])]"
  let ?df1 = "\<lparr>columns = ?cols, rows = [?row1], selection_object = False\<rparr>"
  let ?df2 = "\<lparr>columns = ?cols, rows = [?row2], selection_object = False\<rparr>"
  let ?r = "\<lparr>measure_group = ''Content'', standard_kpis = ''image_count'',
                     measure_display_name = ''Images'', definition_text = ''note'',
                     order_value = Some 1\<rparr>"
  have st: "map strip ?cols = ?cols" by code_simp
  have g1: "''Grouping Name'' \<in> set (map strip (columns ?df1))"
    and g2: "''Grouping Name'' \<in> set (map strip (columns ?df2))"
    by code_simp+
  have e: "read_excel_data (\<lambda>f. []) quiet (Inr ?df1) = Returns (Some [?r])" by code_simp
  from grouping_layout_order[OF g1, of "\<lambda>f. []" quiet] e
  obtain k v where "k < length (rows ?df1)" "row_item (map strip (columns ?df1)) (rows ?df1 ! k) ''Measure Order'' = Inr v"
    "(isna v \<and> order_value ?r = Some (int k + 1))
       \<or> (notna v \<and> (\<exists>n. py_int v = Inr n \<and> order_value ?r = Some n))"
    by fastforce
  moreover have "row_item ?cols ?row1 ''Measure Order'' = Inr (CFloat NotANumber)" by code_simp
  ultimately have a: "\<exists>k v. k < 1 \<and> isna v \<and> Some (1::int) = Some (int k + 1)"
    by (auto simp: st notna_def isna_def)
  have i: "row_item (map strip (columns ?df2)) (rows ?df2 ! 0) ''Measure Order''
           = Inr (CStr (''5'' @ [CHR 0x1F]))"
    by code_simp
  have p: "py_int (CStr (''5'' @ [CHR 0x1F])) = Inl ValueError" by code_simp
  have n: "notna (CStr (''5'' @ [CHR 0x1F]))" by (simp add: notna_def isna_def)
  have q: "interrupt quiet = None \<and> print_error quiet = None \<and> print_exc_error quiet = None"
    by (simp add: quiet_def)
  from grouping_layout_order[OF g2, of "\<lambda>f. []" quiet] i p n q
  have "read_excel_data (\<lambda>f. []) quiet (Inr ?df2) = Returns None" by fastforce
  with e a p show ?thesis by blast
qed





section \<open>Properties of the setup sheet functions\<close>

lemma keyword_loop_eq:
  "keyword_loop ks val w score = (if list_ex (\<lambda>k. contains k val) ks then score + w else score)"
  by (induction ks) simp_all

lemma cell_loop_eq:
  "cell_loop p vals score
   = score + weight p * int (length (filter (\<lambda>val. length val \<le> max_length p
                                  \<and> list_ex (\<lambda>k. contains k val) (keyword_list p)) vals))"
  by (induction vals arbitrary: score) (simp_all add: keyword_loop_eq algebra_simps)

lemma pattern_loop_eq:
  "pattern_loop ps vals score
   = score + (\<Sum>(pattern_name, p)\<leftarrow>ps.
        weight p * int (length (filter (\<lambda>val. length val \<le> max_length p
                                  \<and> list_ex (\<lambda>k. contains k val) (keyword_list p)) vals)))"
  by (induction ps arbitrary: score) (auto simp: cell_loop_eq)

lemma group_matches_count:
  "group_matches p vals
   = (filter (\<lambda>val. length val \<le> max_length p
                 \<and> list_ex (\<lambda>k. contains k val) (keyword_list p)) vals \<noteq> [])"
  by (simp add: group_matches_def list_ex_iff filter_empty_conv)

lemma pattern_sum_once:
  assumes "\<forall>(pattern_name, p)\<in>set ps.
             length (filter (\<lambda>val. length val \<le> max_length p
                       \<and> list_ex (\<lambda>k. contains k val) (keyword_list p)) vals) \<le> 1"
  shows "(\<Sum>(pattern_name, p)\<leftarrow>ps.
            weight p * int (length (filter (\<lambda>val. length val \<le> max_length p
                                  \<and> list_ex (\<lambda>k. contains k val) (keyword_list p)) vals)))
         = (\<Sum>(pattern_name, p)\<leftarrow>ps. if group_matches p vals then weight p else 0)"
  using assms
proof (induction ps)
  case Nil
  then show ?case by simp
next
  case (Cons a ps)
  obtain n p where a: "a = (n, p)" by (cases a)
  let ?c = "length (filter (\<lambda>val. length val \<le> max_length p
                       \<and> list_ex (\<lambda>k. contains k val) (keyword_list p)) vals)"
  from Cons.prems a have "?c \<le> 1" by simp
  then have "?c = 0 \<or> ?c = 1" by arith
  then have "weight p * int ?c = (if group_matches p vals then weight p else 0)"
    by (auto simp: group_matches_count)
  moreover from Cons have "(\<Sum>(pattern_name, p)\<leftarrow>ps.
            weight p * int (length (filter (\<lambda>val. length val \<le> max_length p
                                  \<and> list_ex (\<lambda>k. contains k val) (keyword_list p)) vals)))
         = (\<Sum>(pattern_name, p)\<leftarrow>ps. if group_matches p vals then weight p else 0)"
    by simp
  ultimately show ?case by (simp add: a)
qed

text \<open>
  Where no keyword group matches two cells of a row, the score of the code is the score of
  the specification.
\<close>

lemma row_score_once:
  assumes "\<forall>(pattern_name, p)\<in>set column_patterns.
             length (filter (\<lambda>val. length val \<le> max_length p
                       \<and> list_ex (\<lambda>k. contains k val) (keyword_list p)) (row_lower fs row)) \<le> 1"
  shows "row_score fs row = spec_row_score fs row"
proof -
  have "pattern_loop column_patterns (row_lower fs row) 0 = spec_pattern_score (row_lower fs row)"
    unfolding pattern_loop_eq spec_pattern_score_def
    using pattern_sum_once[OF assms] by simp
  then show ?thesis by (simp add: row_score_def spec_row_score_def Let_def)
qed

text \<open>
  Claim C3. The comment at line 1243 and the specification count the weight of a keyword
  group once for a row. The \<^verbatim>\<open>break\<close> leaves only the loop over the keywords, so the loop
  over the cells adds the weight once for every matching cell (lemma \<open>cell_loop_eq\<close>). On
  the row \<^verbatim>\<open>Target\<close>, \<^verbatim>\<open>Retailer Target\<close>, \<^verbatim>\<open>Notes\<close> the code scores 7 and takes the row
  as the header, where the score of the specification is 4, below the threshold, and its
  result the default row 2.
\<close>

theorem header_score_counts_every_cell:
  "row_score (\<lambda>f. []) [CStr ''Target'', CStr ''Retailer Target'', CStr ''Notes''] = Some 7
   \<and> spec_row_score (\<lambda>f. []) [CStr ''Target'', CStr ''Retailer Target'', CStr ''Notes''] = Some 4
   \<and> detect_header_row (\<lambda>f. []) [[CStr ''Target'', CStr ''Retailer Target'', CStr ''Notes'']] = 0"
  by code_simp

lemma foldl_invariant:
  assumes "P m0" and "\<And>m x. P m \<Longrightarrow> x \<in> set xs \<Longrightarrow> P (f m x)"
  shows "P (foldl f m0 xs)"
  using assms by (induction xs arbitrary: m0) simp_all

lemma contains_nonempty: "contains k s \<Longrightarrow> k \<noteq> [] \<Longrightarrow> s \<noteq> []"
  by (cases s) auto

lemma lower_Nil_iff: "lower s = [] \<longleftrightarrow> s = []"
  by (simp add: lower_def)

lemma map_column_target:
  "target_col (map_column m x) = Some c \<Longrightarrow>
   target_col m = Some c
   \<or> (x = c \<and> contains ''target'' (lower c) \<and> \<not> contains ''retailer'' (lower c))"
  by (auto simp: map_column_def Let_def split: if_splits)

lemma map_column_display:
  "display_name_col (map_column m x) = Some d \<Longrightarrow>
   display_name_col m = Some d
   \<or> (x = d \<and> contains ''display'' (lower d) \<and> contains ''name'' (lower d))"
  by (auto simp: map_column_def Let_def split: if_splits)

lemma map_column_display_keeps:
  "display_name_col m \<noteq> None \<Longrightarrow> display_name_col (map_column m x) \<noteq> None"
  by (auto simp: map_column_def Let_def)

lemma map_column_display_sets:
  assumes "contains ''display'' (lower x)" "contains ''name'' (lower x)"
    "contains ''target'' (lower x) \<longrightarrow> contains ''retailer'' (lower x)"
  shows "display_name_col (map_column m x) = Some x"
  using assms by (auto simp: map_column_def Let_def)

lemma fold_target:
  "\<forall>c. target_col (foldl map_column no_columns cols) = Some c \<longrightarrow>
        c \<in> set cols \<and> contains ''target'' (lower c) \<and> \<not> contains ''retailer'' (lower c)"
proof (rule foldl_invariant)
  show "\<forall>c. target_col no_columns = Some c \<longrightarrow>
        c \<in> set cols \<and> contains ''target'' (lower c) \<and> \<not> contains ''retailer'' (lower c)"
    by (simp add: no_columns_def)
next
  fix m :: setup_columns and x
  assume "\<forall>c. target_col m = Some c \<longrightarrow>
        c \<in> set cols \<and> contains ''target'' (lower c) \<and> \<not> contains ''retailer'' (lower c)"
    and "x \<in> set cols"
  then show "\<forall>c. target_col (map_column m x) = Some c \<longrightarrow>
        c \<in> set cols \<and> contains ''target'' (lower c) \<and> \<not> contains ''retailer'' (lower c)"
    using map_column_target by blast
qed

lemma fold_display:
  "\<forall>d. display_name_col (foldl map_column no_columns cols) = Some d \<longrightarrow>
        d \<in> set cols \<and> contains ''display'' (lower d) \<and> contains ''name'' (lower d)"
proof (rule foldl_invariant)
  show "\<forall>d. display_name_col no_columns = Some d \<longrightarrow>
        d \<in> set cols \<and> contains ''display'' (lower d) \<and> contains ''name'' (lower d)"
    by (simp add: no_columns_def)
next
  fix m :: setup_columns and x
  assume "\<forall>d. display_name_col m = Some d \<longrightarrow>
        d \<in> set cols \<and> contains ''display'' (lower d) \<and> contains ''name'' (lower d)"
    and "x \<in> set cols"
  then show "\<forall>d. display_name_col (map_column m x) = Some d \<longrightarrow>
        d \<in> set cols \<and> contains ''display'' (lower d) \<and> contains ''name'' (lower d)"
    using map_column_display by blast
qed

lemma fold_display_keeps:
  "display_name_col m \<noteq> None \<Longrightarrow> display_name_col (foldl map_column m xs) \<noteq> None"
proof (induction xs arbitrary: m)
  case Nil
  then show ?case by simp
next
  case (Cons a xs)
  from Cons.prems have "display_name_col (map_column m a) \<noteq> None"
    by (rule map_column_display_keeps)
  from Cons.IH[OF this] show ?case by simp
qed

lemma fold_display_found:
  assumes "x \<in> set xs" "contains ''display'' (lower x)" "contains ''name'' (lower x)"
    "contains ''target'' (lower x) \<longrightarrow> contains ''retailer'' (lower x)"
  shows "display_name_col (foldl map_column m xs) \<noteq> None"
  using assms(1)
proof (induction xs arbitrary: m)
  case Nil
  then show ?case by simp
next
  case (Cons y ys)
  show ?case
  proof (cases "x = y")
    case True
    then have "display_name_col (map_column m y) \<noteq> None"
      using map_column_display_sets[OF assms(2-4)] by simp
    then show ?thesis by (simp add: fold_display_keeps)
  next
    case False
    with Cons show ?thesis by simp
  qed
qed

lemma locate_columns_target:
  "target_col (locate_columns cols) = target_col (foldl map_column no_columns cols)"
  by (simp add: locate_columns_def Let_def)

lemma locate_columns_display:
  assumes "display_name_col (foldl map_column no_columns cols) = Some d" "d \<noteq> []"
  shows "metric_col (locate_columns cols) = Some d"
  using assms by (simp add: locate_columns_def Let_def truthy_def)

lemma map_retailer_target:
  "retailer_target_col (map_retailer_column m x) = Some c \<Longrightarrow>
   retailer_target_col m = Some c
   \<or> (x = c \<and> contains ''retailer'' (lower c) \<and> contains ''target'' (lower c))"
  by (auto simp: map_retailer_column_def Let_def split: if_splits)

lemma map_retailer_other:
  "retailer_name_col (map_retailer_column m x) = Some c \<Longrightarrow>
   retailer_name_col m = Some c \<or> \<not> contains ''target'' (lower c)"
  "retailer_weight_col (map_retailer_column m x) = Some c \<Longrightarrow>
   retailer_weight_col m = Some c \<or> \<not> contains ''target'' (lower c)"
  by (auto simp: map_retailer_column_def Let_def split: if_splits)

lemma map_retailer_target_sets:
  "contains ''retailer'' (lower x) \<Longrightarrow> contains ''target'' (lower x) \<Longrightarrow>
   retailer_target_col (map_retailer_column m x) = Some x"
  by (simp add: map_retailer_column_def Let_def)

lemma map_retailer_target_keeps:
  "retailer_target_col m \<noteq> None \<Longrightarrow> retailer_target_col (map_retailer_column m x) \<noteq> None"
  by (auto simp: map_retailer_column_def Let_def)

lemma fold_retailer_target_keeps:
  "retailer_target_col m \<noteq> None \<Longrightarrow>
   retailer_target_col (foldl map_retailer_column m xs) \<noteq> None"
proof (induction xs arbitrary: m)
  case Nil
  then show ?case by simp
next
  case (Cons a xs)
  from Cons.prems have "retailer_target_col (map_retailer_column m a) \<noteq> None"
    by (rule map_retailer_target_keeps)
  from Cons.IH[OF this] show ?case by simp
qed

lemma fold_retailer_target_found:
  assumes "x \<in> set xs" "contains ''retailer'' (lower x)" "contains ''target'' (lower x)"
  shows "retailer_target_col (foldl map_retailer_column m xs) \<noteq> None"
  using assms(1)
proof (induction xs arbitrary: m)
  case Nil
  then show ?case by simp
next
  case (Cons y ys)
  show ?case
  proof (cases "x = y")
    case True
    then have "retailer_target_col (map_retailer_column m y) \<noteq> None"
      using map_retailer_target_sets[OF assms(2,3)] by simp
    then show ?thesis by (simp add: fold_retailer_target_keeps)
  next
    case False
    with Cons show ?thesis by simp
  qed
qed

lemma unnamed_not_retailer: "\<not> contains ''retailer'' (lower ''Unnamed: 0'')"
  by code_simp

lemma sheet_columns_sub: "set (sheet_columns cols) \<subseteq> set cols"
  by (cases cols) (auto simp: sheet_columns_def)

lemma sheet_columns_mem:
  assumes "c \<in> set cols" "contains ''retailer'' (lower c)"
  shows "c \<in> set (sheet_columns cols)"
proof -
  have "c \<noteq> ''Unnamed: 0''" using assms(2) unnamed_not_retailer by metis
  then show ?thesis using assms(1) by (cases cols) (auto simp: sheet_columns_def)
qed

lemma fold_retailer_target:
  "\<forall>c. retailer_target_col (foldl map_retailer_column
          \<lparr>retailer_name_col = None, retailer_target_col = None, retailer_weight_col = None\<rparr> xs)
        = Some c \<longrightarrow>
        c \<in> set xs \<and> contains ''retailer'' (lower c) \<and> contains ''target'' (lower c)"
proof (rule foldl_invariant)
  show "\<forall>c. retailer_target_col
          \<lparr>retailer_name_col = None, retailer_target_col = None, retailer_weight_col = None\<rparr>
        = Some c \<longrightarrow>
        c \<in> set xs \<and> contains ''retailer'' (lower c) \<and> contains ''target'' (lower c)"
    by simp
next
  fix m :: retailer_columns and x
  assume "\<forall>c. retailer_target_col m = Some c \<longrightarrow>
        c \<in> set xs \<and> contains ''retailer'' (lower c) \<and> contains ''target'' (lower c)"
    and "x \<in> set xs"
  then show "\<forall>c. retailer_target_col (map_retailer_column m x) = Some c \<longrightarrow>
        c \<in> set xs \<and> contains ''retailer'' (lower c) \<and> contains ''target'' (lower c)"
    using map_retailer_target by blast
qed

lemma fold_retailer_name:
  "\<forall>c. retailer_name_col (foldl map_retailer_column
          \<lparr>retailer_name_col = None, retailer_target_col = None, retailer_weight_col = None\<rparr> xs)
        = Some c \<longrightarrow> \<not> contains ''target'' (lower c)"
proof (rule foldl_invariant)
  show "\<forall>c. retailer_name_col
          \<lparr>retailer_name_col = None, retailer_target_col = None, retailer_weight_col = None\<rparr>
        = Some c \<longrightarrow> \<not> contains ''target'' (lower c)"
    by simp
next
  fix m :: retailer_columns and x
  assume "\<forall>c. retailer_name_col m = Some c \<longrightarrow> \<not> contains ''target'' (lower c)"
  then show "\<forall>c. retailer_name_col (map_retailer_column m x) = Some c \<longrightarrow>
        \<not> contains ''target'' (lower c)"
    using map_retailer_other(1) by blast
qed

lemma fold_retailer_weight:
  "\<forall>c. retailer_weight_col (foldl map_retailer_column
          \<lparr>retailer_name_col = None, retailer_target_col = None, retailer_weight_col = None\<rparr> xs)
        = Some c \<longrightarrow> \<not> contains ''target'' (lower c)"
proof (rule foldl_invariant)
  show "\<forall>c. retailer_weight_col
          \<lparr>retailer_name_col = None, retailer_target_col = None, retailer_weight_col = None\<rparr>
        = Some c \<longrightarrow> \<not> contains ''target'' (lower c)"
    by simp
next
  fix m :: retailer_columns and x
  assume "\<forall>c. retailer_weight_col m = Some c \<longrightarrow> \<not> contains ''target'' (lower c)"
  then show "\<forall>c. retailer_weight_col (map_retailer_column m x) = Some c \<longrightarrow>
        \<not> contains ''target'' (lower c)"
    using map_retailer_other(2) by blast
qed

lemma map_column_metric:
  "metric_col (map_column m x) = Some c \<Longrightarrow>
   metric_col m = Some c \<or> contains ''name'' (lower c)"
  by (auto simp: map_column_def Let_def split: if_splits)

lemma map_column_weight:
  "weight_col (map_column m x) = Some c \<Longrightarrow>
   weight_col m = Some c \<or> contains ''weight'' (lower c)"
  by (auto simp: map_column_def Let_def split: if_splits)

lemma fold_metric:
  "\<forall>c. metric_col (foldl map_column no_columns cols) = Some c \<longrightarrow> contains ''name'' (lower c)"
proof (rule foldl_invariant)
  show "\<forall>c. metric_col no_columns = Some c \<longrightarrow> contains ''name'' (lower c)"
    by (simp add: no_columns_def)
next
  fix m :: setup_columns and x
  assume "\<forall>c. metric_col m = Some c \<longrightarrow> contains ''name'' (lower c)"
  then show "\<forall>c. metric_col (map_column m x) = Some c \<longrightarrow> contains ''name'' (lower c)"
    using map_column_metric by blast
qed

lemma fold_weight:
  "\<forall>c. weight_col (foldl map_column no_columns cols) = Some c \<longrightarrow> contains ''weight'' (lower c)"
proof (rule foldl_invariant)
  show "\<forall>c. weight_col no_columns = Some c \<longrightarrow> contains ''weight'' (lower c)"
    by (simp add: no_columns_def)
next
  fix m :: setup_columns and x
  assume "\<forall>c. weight_col m = Some c \<longrightarrow> contains ''weight'' (lower c)"
  then show "\<forall>c. weight_col (map_column m x) = Some c \<longrightarrow> contains ''weight'' (lower c)"
    using map_column_weight by blast
qed

lemma contains_lower_nonempty: "contains k (lower c) \<Longrightarrow> k \<noteq> [] \<Longrightarrow> c \<noteq> []"
  using contains_nonempty lower_Nil_iff by blast

lemma located_truthy:
  "target_col (locate_columns cols) = Some c \<Longrightarrow> c \<noteq> []"
  "metric_col (locate_columns cols) = Some c \<Longrightarrow> c \<noteq> []"
  "weight_col (locate_columns cols) = Some c \<Longrightarrow> c \<noteq> []"
proof -
  let ?m = "foldl map_column no_columns cols"
  show "target_col (locate_columns cols) = Some c \<Longrightarrow> c \<noteq> []"
    using fold_target[of cols] contains_lower_nonempty[of "''target''" c]
    by (simp add: locate_columns_target)
  show "weight_col (locate_columns cols) = Some c \<Longrightarrow> c \<noteq> []"
    using fold_weight[of cols] contains_lower_nonempty[of "''weight''" c]
    by (auto simp: locate_columns_def Let_def split: if_splits)
  show "metric_col (locate_columns cols) = Some c \<Longrightarrow> c \<noteq> []"
    using fold_metric[of cols] fold_display[of cols] contains_lower_nonempty[of "''name''" c]
    by (auto simp: locate_columns_def Let_def split: if_splits)
qed

lemma map_column_retailer:
  "retailer_col (map_column m x) = Some c \<Longrightarrow>
   retailer_col m = Some c \<or> (contains ''retailer'' (lower c) \<and> \<not> contains ''target'' (lower c))"
  by (auto simp: map_column_def Let_def split: if_splits)

lemma fold_retailer_col:
  "\<forall>c. retailer_col (foldl map_column no_columns cols) = Some c \<longrightarrow>
        \<not> contains ''target'' (lower c)"
proof (rule foldl_invariant)
  show "\<forall>c. retailer_col no_columns = Some c \<longrightarrow> \<not> contains ''target'' (lower c)"
    by (simp add: no_columns_def)
next
  fix m :: setup_columns and x
  assume "\<forall>c. retailer_col m = Some c \<longrightarrow> \<not> contains ''target'' (lower c)"
  then show "\<forall>c. retailer_col (map_column m x) = Some c \<longrightarrow> \<not> contains ''target'' (lower c)"
    using map_column_retailer by blast
qed

lemma locate_columns_retailer:
  "retailer_col (locate_columns cols) = retailer_col (foldl map_column no_columns cols)"
  by (simp add: locate_columns_def Let_def)

lemma locate_columns_display_name:
  "display_name_col (locate_columns cols) = display_name_col (foldl map_column no_columns cols)"
  by (simp add: locate_columns_def Let_def)

lemma map_column_display_as_target:
  assumes "contains ''target'' (lower d)" "\<not> contains ''retailer'' (lower d)" "target_col m = None"
  shows "map_column m d = m\<lparr>target_col := Some d\<rparr>"
  using assms by (simp add: map_column_def Let_def)

text \<open>
  Claim C8, corrected. The claim reads "whenever both a Display Name column and a Metric or
  Measure Name column are present, the Display Name column is the one used": with the header
  \<^verbatim>\<open>Target Display Name\<close>, \<^verbatim>\<open>Measure Name\<close>, \<^verbatim>\<open>Metric Weight\<close> the first branch of the chain
  takes the display name column as the target column, no column is classified as Display
  Name and the Measure Name column is used. The claim also reads "it is classified as the
  retailer-target column": the mapper of the setup sheet has no such field, and a column
  \<^verbatim>\<open>Retailer Target\<close> of the setup sheet is given to none of its five fields.
\<close>

theorem column_mapper_priorities_counterexample:
  "contains ''display'' (lower ''Target Display Name'')
   \<and> contains ''name'' (lower ''Target Display Name'')
   \<and> locate_columns [''Target Display Name'', ''Measure Name'', ''Metric Weight'']
     = \<lparr>target_col = Some ''Target Display Name'', metric_col = Some ''Measure Name'',
        display_name_col = None, weight_col = Some ''Metric Weight'', retailer_col = None\<rparr>
   \<and> locate_columns [''Retailer Target'', ''Target'', ''Measure Name'', ''Metric Weight'']
     = \<lparr>target_col = Some ''Target'', metric_col = Some ''Measure Name'',
        display_name_col = None, weight_col = Some ''Metric Weight'', retailer_col = None\<rparr>"
  by code_simp

text \<open>
  Claim C8, as the code has it. The column mapper of the setup sheet gives the generic
  target field only to a column of the sheet whose lowercased label contains \<^verbatim>\<open>target\<close>
  and not \<^verbatim>\<open>retailer\<close>; a column that contains both is never the target column and never
  the retailer column of the setup sheet. It is the mapper of the retailer sheet that
  classifies such a column of its sheet as the retailer target column, never as the retailer
  name or weight column. When the mapper classifies a column as Display Name, that column is
  the metric column used for matching, whether or not a Metric Name or Measure Name column
  is there; a column whose label contains \<^verbatim>\<open>display\<close> and \<^verbatim>\<open>name\<close> is classified so
  when it contains \<^verbatim>\<open>target\<close> only together with \<^verbatim>\<open>retailer\<close>. A column whose label
  contains \<^verbatim>\<open>target\<close> and not \<^verbatim>\<open>retailer\<close> and that comes before any target column is
  found is taken as the target column, whatever else its label contains.
\<close>

theorem column_mapper_priorities:
  "(\<forall>c. target_col (locate_columns cols) = Some c \<longrightarrow>
        c \<in> set cols \<and> contains ''target'' (lower c) \<and> \<not> contains ''retailer'' (lower c))
   \<and> (\<forall>c\<in>set cols. contains ''retailer'' (lower c) \<and> contains ''target'' (lower c) \<longrightarrow>
        target_col (locate_columns cols) \<noteq> Some c
        \<and> retailer_col (locate_columns cols) \<noteq> Some c)
   \<and> (\<forall>c\<in>set rcols. contains ''retailer'' (lower c) \<and> contains ''target'' (lower c) \<longrightarrow>
        (\<exists>t\<in>set rcols. retailer_target_col (locate_retailer_columns rcols) = Some t
              \<and> contains ''retailer'' (lower t) \<and> contains ''target'' (lower t))
        \<and> retailer_name_col (locate_retailer_columns rcols) \<noteq> Some c
        \<and> retailer_weight_col (locate_retailer_columns rcols) \<noteq> Some c)
   \<and> (\<forall>d. display_name_col (locate_columns cols) = Some d \<longrightarrow>
        d \<in> set cols \<and> contains ''display'' (lower d) \<and> contains ''name'' (lower d)
        \<and> metric_col (locate_columns cols) = Some d)
   \<and> ((\<exists>d\<in>set cols. contains ''display'' (lower d) \<and> contains ''name'' (lower d)
           \<and> (contains ''target'' (lower d) \<longrightarrow> contains ''retailer'' (lower d))) \<longrightarrow>
        (\<exists>d\<in>set cols. metric_col (locate_columns cols) = Some d
           \<and> display_name_col (locate_columns cols) = Some d
           \<and> contains ''display'' (lower d) \<and> contains ''name'' (lower d)))
   \<and> (\<forall>m d. contains ''target'' (lower d) \<and> \<not> contains ''retailer'' (lower d)
           \<and> target_col m = None \<longrightarrow>
        map_column m d = m\<lparr>target_col := Some d\<rparr>)"
proof -
  have A: "\<forall>c. target_col (locate_columns cols) = Some c \<longrightarrow>
        c \<in> set cols \<and> contains ''target'' (lower c) \<and> \<not> contains ''retailer'' (lower c)"
    using fold_target[of cols] by (simp add: locate_columns_target)
  have B: "\<forall>c\<in>set cols. contains ''retailer'' (lower c) \<and> contains ''target'' (lower c) \<longrightarrow>
        target_col (locate_columns cols) \<noteq> Some c
        \<and> retailer_col (locate_columns cols) \<noteq> Some c"
  proof (intro ballI impI)
    fix c assume c: "c \<in> set cols"
      and b: "contains ''retailer'' (lower c) \<and> contains ''target'' (lower c)"
    have 1: "target_col (locate_columns cols) \<noteq> Some c"
      using fold_target[of cols] b by (auto simp: locate_columns_target)
    have 2: "retailer_col (locate_columns cols) \<noteq> Some c"
      using fold_retailer_col[of cols] b by (auto simp: locate_columns_retailer)
    from 1 2 show "target_col (locate_columns cols) \<noteq> Some c
        \<and> retailer_col (locate_columns cols) \<noteq> Some c" by (rule conjI)
  qed
  have C: "\<forall>c\<in>set rcols. contains ''retailer'' (lower c) \<and> contains ''target'' (lower c) \<longrightarrow>
        (\<exists>t\<in>set rcols. retailer_target_col (locate_retailer_columns rcols) = Some t
              \<and> contains ''retailer'' (lower t) \<and> contains ''target'' (lower t))
        \<and> retailer_name_col (locate_retailer_columns rcols) \<noteq> Some c
        \<and> retailer_weight_col (locate_retailer_columns rcols) \<noteq> Some c"
  proof (intro ballI impI)
    fix c assume c: "c \<in> set rcols"
      and b: "contains ''retailer'' (lower c) \<and> contains ''target'' (lower c)"
    from b have b1: "contains ''retailer'' (lower c)" and b2: "contains ''target'' (lower c)"
      by blast+
    have "c \<in> set (sheet_columns rcols)" using c b1 by (rule sheet_columns_mem)
    then have "retailer_target_col (locate_retailer_columns rcols) \<noteq> None"
      unfolding locate_retailer_columns_def using b1 b2 by (rule fold_retailer_target_found)
    then obtain t where t: "retailer_target_col (locate_retailer_columns rcols) = Some t" by blast
    then have "t \<in> set (sheet_columns rcols) \<and> contains ''retailer'' (lower t)
                 \<and> contains ''target'' (lower t)"
      unfolding locate_retailer_columns_def using fold_retailer_target by blast
    with t sheet_columns_sub
    have 2: "\<exists>t\<in>set rcols. retailer_target_col (locate_retailer_columns rcols) = Some t
                \<and> contains ''retailer'' (lower t) \<and> contains ''target'' (lower t)"
      by blast
    have 3: "retailer_name_col (locate_retailer_columns rcols) \<noteq> Some c"
      unfolding locate_retailer_columns_def using fold_retailer_name b by blast
    have 4: "retailer_weight_col (locate_retailer_columns rcols) \<noteq> Some c"
      unfolding locate_retailer_columns_def using fold_retailer_weight b by blast
    from 2 3 4 show "(\<exists>t\<in>set rcols. retailer_target_col (locate_retailer_columns rcols) = Some t
              \<and> contains ''retailer'' (lower t) \<and> contains ''target'' (lower t))
        \<and> retailer_name_col (locate_retailer_columns rcols) \<noteq> Some c
        \<and> retailer_weight_col (locate_retailer_columns rcols) \<noteq> Some c"
      by (intro conjI)
  qed
  have D: "\<forall>d. display_name_col (locate_columns cols) = Some d \<longrightarrow>
        d \<in> set cols \<and> contains ''display'' (lower d) \<and> contains ''name'' (lower d)
        \<and> metric_col (locate_columns cols) = Some d"
  proof (intro allI impI)
    fix d assume "display_name_col (locate_columns cols) = Some d"
    then have d: "display_name_col (foldl map_column no_columns cols) = Some d"
      by (simp add: locate_columns_display_name)
    with fold_display[of cols] have p: "d \<in> set cols" "contains ''display'' (lower d)"
      "contains ''name'' (lower d)" by simp_all
    then have ne: "d \<noteq> []" using contains_lower_nonempty[of "''name''" d] by simp
    have "metric_col (locate_columns cols) = Some d" using d ne by (rule locate_columns_display)
    with p show "d \<in> set cols \<and> contains ''display'' (lower d) \<and> contains ''name'' (lower d)
        \<and> metric_col (locate_columns cols) = Some d" by (intro conjI)
  qed
  have E: "(\<exists>d\<in>set cols. contains ''display'' (lower d) \<and> contains ''name'' (lower d)
           \<and> (contains ''target'' (lower d) \<longrightarrow> contains ''retailer'' (lower d))) \<longrightarrow>
        (\<exists>d\<in>set cols. metric_col (locate_columns cols) = Some d
           \<and> display_name_col (locate_columns cols) = Some d
           \<and> contains ''display'' (lower d) \<and> contains ''name'' (lower d))"
  proof
    assume "\<exists>d\<in>set cols. contains ''display'' (lower d) \<and> contains ''name'' (lower d)
             \<and> (contains ''target'' (lower d) \<longrightarrow> contains ''retailer'' (lower d))"
    then obtain x where "x \<in> set cols" "contains ''display'' (lower x)"
      "contains ''name'' (lower x)"
      "contains ''target'' (lower x) \<longrightarrow> contains ''retailer'' (lower x)" by blast
    then have "display_name_col (foldl map_column no_columns cols) \<noteq> None"
      by (rule fold_display_found)
    then obtain d where "display_name_col (foldl map_column no_columns cols) = Some d" by blast
    then have d: "display_name_col (locate_columns cols) = Some d"
      by (simp add: locate_columns_display_name)
    with D have "d \<in> set cols \<and> contains ''display'' (lower d) \<and> contains ''name'' (lower d)
        \<and> metric_col (locate_columns cols) = Some d" by blast
    with d show "\<exists>d\<in>set cols. metric_col (locate_columns cols) = Some d
             \<and> display_name_col (locate_columns cols) = Some d
             \<and> contains ''display'' (lower d) \<and> contains ''name'' (lower d)"
      by blast
  qed
  have F: "\<forall>m d. contains ''target'' (lower d) \<and> \<not> contains ''retailer'' (lower d)
           \<and> target_col m = None \<longrightarrow>
        map_column m d = m\<lparr>target_col := Some d\<rparr>"
    using map_column_display_as_target by blast
  show ?thesis by (rule conjI[OF A conjI[OF B conjI[OF C conjI[OF D conjI[OF E F]]]]])
qed

theorem column_mapper_priorities_witness:
  "target_col (locate_columns [''Measure Name'', ''Retailer Target'', ''Display Name'', ''Target'',
       ''Metric Weight'']) = Some ''Target''
   \<and> metric_col (locate_columns [''Measure Name'', ''Retailer Target'', ''Display Name'', ''Target'',
       ''Metric Weight'']) = Some ''Display Name''
   \<and> retailer_col (locate_columns [''Measure Name'', ''Retailer Target'', ''Display Name'', ''Target'',
       ''Metric Weight'']) \<noteq> Some ''Retailer Target''
   \<and> retailer_target_col (locate_retailer_columns [''Unnamed: 0'', ''Retailer'', ''Retailer Target'',
       ''Retailer Weight'']) = Some ''Retailer Target''
   \<and> map_column no_columns ''Target Display Name''
     = no_columns\<lparr>target_col := Some ''Target Display Name''\<rparr>"
proof -
  let ?cols = "[''Measure Name'', ''Retailer Target'', ''Display Name'', ''Target'',
       ''Metric Weight'']"
  let ?rcols = "[''Unnamed: 0'', ''Retailer'', ''Retailer Target'', ''Retailer Weight'']"
  note t = column_mapper_priorities[of ?cols ?rcols]
  have 1: "target_col (locate_columns ?cols) = Some ''Target''" by code_simp
  have 2: "''Retailer Target'' \<in> set ?cols" "''Retailer Target'' \<in> set ?rcols" by simp_all
  have 3: "contains ''retailer'' (lower ''Retailer Target'')
           \<and> contains ''target'' (lower ''Retailer Target'')" by code_simp
  have 4: "\<exists>d\<in>set ?cols. contains ''display'' (lower d) \<and> contains ''name'' (lower d)
           \<and> (contains ''target'' (lower d) \<longrightarrow> contains ''retailer'' (lower d))"
    by code_simp
  have 5: "\<forall>t\<in>set ?rcols. contains ''retailer'' (lower t) \<and> contains ''target'' (lower t)
             \<longrightarrow> t = ''Retailer Target''" by code_simp
  have 6: "\<forall>d\<in>set ?cols. contains ''display'' (lower d) \<and> contains ''name'' (lower d)
             \<longrightarrow> d = ''Display Name''" by code_simp
  have 7: "contains ''target'' (lower ''Target Display Name'')
           \<and> \<not> contains ''retailer'' (lower ''Target Display Name'')
           \<and> target_col no_columns = None" by code_simp
  from t 2 3
  obtain x where "x \<in> set ?rcols" "retailer_target_col (locate_retailer_columns ?rcols) = Some x"
    "contains ''retailer'' (lower x) \<and> contains ''target'' (lower x)" by blast
  with 5 have a: "retailer_target_col (locate_retailer_columns ?rcols) = Some ''Retailer Target''"
    by blast
  from t 4
  obtain d where "d \<in> set ?cols" "metric_col (locate_columns ?cols) = Some d"
    "contains ''display'' (lower d) \<and> contains ''name'' (lower d)" by blast
  with 6 have b: "metric_col (locate_columns ?cols) = Some ''Display Name''" by blast
  from t 2 3 have c: "retailer_col (locate_columns ?cols) \<noteq> Some ''Retailer Target''" by blast
  from t 7 have e: "map_column no_columns ''Target Display Name''
     = no_columns\<lparr>target_col := Some ''Target Display Name''\<rparr>" by blast
  from 1 a b c e show ?thesis by blast
qed

text \<open>
  Claim C6. When the target column, the metric or display name column or the weight column
  is not located, \<^verbatim>\<open>process_weights_targets_file\<close> returns \<^verbatim>\<open>False\<close> at line 1343: the
  status message carries the list of all column labels of the setup sheet and no CSV has been
  written. When all three are located the function goes on.
\<close>

theorem required_columns_missing:
  "(target_col (locate_columns cols) = None \<or> metric_col (locate_columns cols) = None
      \<or> weight_col (locate_columns cols) = None \<longrightarrow>
      required_columns cols st
      = (Return False,
         st\<lparr>status_message :=
              TextWithList
                ''Phase 2: Error: Could not find required columns in setup sheet. Found: ''
                cols\<rparr>)
      \<and> output_csv (snd (required_columns cols st)) = output_csv st)
   \<and> (target_col (locate_columns cols) \<noteq> None \<and> metric_col (locate_columns cols) \<noteq> None
      \<and> weight_col (locate_columns cols) \<noteq> None \<longrightarrow>
      fst (required_columns cols st) = Continue (locate_columns cols))"
proof (rule conjI; rule impI)
  assume a: "target_col (locate_columns cols) = None \<or> metric_col (locate_columns cols) = None
      \<or> weight_col (locate_columns cols) = None"
  then have "\<not> (truthy (target_col (locate_columns cols)) \<and> truthy (metric_col (locate_columns cols))
        \<and> truthy (weight_col (locate_columns cols)))"
    by (auto simp: truthy_def)
  then have r: "required_columns cols st
      = (Return False,
         st\<lparr>status_message :=
              TextWithList
                ''Phase 2: Error: Could not find required columns in setup sheet. Found: ''
                cols\<rparr>)"
    by (simp add: required_columns_def Let_def)
  have "output_csv (snd (required_columns cols st)) = output_csv st"
    unfolding r by simp
  with r show "required_columns cols st
      = (Return False,
         st\<lparr>status_message :=
              TextWithList
                ''Phase 2: Error: Could not find required columns in setup sheet. Found: ''
                cols\<rparr>)
      \<and> output_csv (snd (required_columns cols st)) = output_csv st"
    by (rule conjI)
next
  assume "target_col (locate_columns cols) \<noteq> None \<and> metric_col (locate_columns cols) \<noteq> None
      \<and> weight_col (locate_columns cols) \<noteq> None"
  then obtain a b c where "target_col (locate_columns cols) = Some a"
    "metric_col (locate_columns cols) = Some b" "weight_col (locate_columns cols) = Some c"
    by blast
  then have "truthy (target_col (locate_columns cols)) \<and> truthy (metric_col (locate_columns cols))
        \<and> truthy (weight_col (locate_columns cols))"
    using located_truthy[of cols] by (simp add: truthy_def)
  then show "fst (required_columns cols st) = Continue (locate_columns cols)"
    by (simp add: required_columns_def Let_def)
qed

theorem required_columns_missing_witness:
  "weight_col (locate_columns [''Display Name'', ''Target'', ''Notes'']) = None
   \<and> required_columns [''Display Name'', ''Target'', ''Notes'']
       \<lparr>status_message = Text ''Phase 2: Reading setup sheet...'', output_csv = None\<rparr>
     = (Return False,
        \<lparr>status_message =
           TextWithList
             ''Phase 2: Error: Could not find required columns in setup sheet. Found: ''
             [''Display Name'', ''Target'', ''Notes''],
         output_csv = None\<rparr>)"
proof -
  have w: "weight_col (locate_columns [''Display Name'', ''Target'', ''Notes'']) = None"
    by code_simp
  from required_columns_missing[of "[''Display Name'', ''Target'', ''Notes'']"
      "\<lparr>status_message = Text ''Phase 2: Reading setup sheet...'', output_csv = None\<rparr>"] w
  show ?thesis by simp
qed

section \<open>Properties of the overrides and the defaults\<close>

lemma row_cells_absent: "name \<notin> set cols \<Longrightarrow> row_cells cols row name = []"
proof -
  assume "name \<notin> set cols"
  then have "\<forall>p\<in>set (zip cols row). fst p \<noteq> name"
    by (auto dest: set_zip_leftD)
  then show ?thesis by (simp add: row_cells_def filter_empty_conv)
qed

lemma row_cells_distinct:
  assumes "distinct cols" "name \<in> set cols" "length row = length cols"
  shows "row_cells cols row name = [row ! label_index cols name]"
  using assms
proof (induction cols arbitrary: row)
  case Nil
  then show ?case by simp
next
  case (Cons c cs)
  then obtain v vs where row: "row = v # vs" "length vs = length cs" by (cases row) auto
  show ?case
  proof (cases "c = name")
    case True
    with Cons.prems have "name \<notin> set cs" by simp
    then have "row_cells cs vs name = []" by (rule row_cells_absent)
    with True row show ?thesis by (simp add: row_cells_def label_index_def)
  next
    case False
    with Cons.prems have "distinct cs" "name \<in> set cs" by simp_all
    from Cons.IH[OF this row(2)] False row show ?thesis
      by (simp add: row_cells_def label_index_def)
  qed
qed

lemma label_index_nth: "name \<in> set cols \<Longrightarrow>
  label_index cols name < length cols \<and> cols ! label_index cols name = name"
  unfolding label_index_def
  by (induction cols) auto

lemma label_index_neq:
  assumes "a \<in> set cols" "b \<in> set cols" "a \<noteq> b"
  shows "label_index cols a \<noteq> label_index cols b"
  using label_index_nth[OF assms(1)] label_index_nth[OF assms(2)] assms(3) by metis

lemma row_item_distinct:
  assumes "distinct cols" "name \<in> set cols" "length row = length cols"
  shows "row_item cols row name = Inr (row ! label_index cols name)"
    and "row_get cols row name d = Inr (row ! label_index cols name)"
    and "cell_at cols row name = row ! label_index cols name"
  by (simp_all add: row_item_def row_get_def cell_at_def row_cells_distinct[OF assms])

lemma set_item_distinct:
  assumes "distinct cols" "name \<in> set cols" "length row = length cols"
  shows "set_item cols row name v = Inr (row[label_index cols name := v])"
  by (simp add: set_item_def row_item_distinct(1)[OF assms] bind_err_def)

lemma text_distinct:
  assumes "distinct cols" "name \<in> set cols" "length row = length cols"
  shows "\<exists>t. text_item fs cols row name = Inr t" "\<exists>t. text_get fs cols row name = Inr t"
  by (simp_all add: text_item_def text_get_def row_item_distinct[OF assms] bind_err_def)

lemma map_err_total:
  assumes "\<forall>x\<in>set xs. \<exists>y. f x = Inr y"
  shows "\<exists>ys. map_err f xs = Inr ys \<and> length ys = length xs
            \<and> (\<forall>i<length xs. f (xs ! i) = Inr (ys ! i))"
  using assms
proof (induction xs)
  case Nil
  then show ?case by simp
next
  case (Cons x xs)
  then obtain y where y: "f x = Inr y" by auto
  from Cons obtain ys where ys: "map_err f xs = Inr ys" "length ys = length xs"
    "\<forall>i<length xs. f (xs ! i) = Inr (ys ! i)" by auto
  have "\<forall>i<length (x # xs). f ((x # xs) ! i) = Inr ((y # ys) ! i)"
  proof (intro allI impI)
    fix i assume "i < length (x # xs)"
    then show "f ((x # xs) ! i) = Inr ((y # ys) ! i)"
      using y ys(3) by (cases i) simp_all
  qed
  with y ys show ?case by (simp add: bind_err_def)
qed

lemma map_err_map:
  assumes "\<forall>x\<in>set xs. f x = Inr (g x)"
  shows "map_err f xs = Inr (map g xs)"
  using assms by (induction xs) (simp_all add: bind_err_def)

lemma find_setup_data_total:
  assumes "distinct cols" "length row = length cols" "''measure_config'' \<in> set cols"
  shows "\<exists>sd. find_setup_data fs cols maps hrc row = Inr sd"
proof -
  from text_distinct(1)[OF assms(1,3,2)] obtain t where
    t: "text_item fs cols row ''measure_config'' = Inr t" by blast
  show ?thesis
  proof (cases "hrc \<and> ''retailer'' \<in> set cols")
    case True
    then have "''retailer'' \<in> set cols" by simp
    from text_distinct(2)[OF assms(1) this assms(2)] obtain r where
      "text_get fs cols row ''retailer'' = Inr r" by blast
    with t True show ?thesis
      by (simp add: find_setup_data_def bind_err_def Let_def split: option.splits)
  next
    case False
    with t show ?thesis
      by (auto simp: find_setup_data_def bind_err_def Let_def)
  qed
qed

lemma override_row_total:
  assumes "distinct cols" "length row = length cols" "''measure_config'' \<in> set cols"
    "''target'' \<in> set cols" "''weight'' \<in> set cols"
  shows "\<exists>row1. override_row fs cols maps hrc row = Inr row1 \<and> length row1 = length row
          \<and> (\<forall>d. find_setup_data fs cols maps hrc row = Inr (Some d) \<longrightarrow>
                (notna (entry_target d) \<longrightarrow> row1 ! label_index cols ''target'' = entry_target d)
              \<and> (notna (entry_weight d) \<longrightarrow> row1 ! label_index cols ''weight'' = entry_weight d))"
proof -
  let ?ti = "label_index cols ''target''" and ?wi = "label_index cols ''weight''"
  have ti: "?ti < length row" and wi: "?wi < length row" and ne: "?ti \<noteq> ?wi"
    using label_index_nth[OF assms(4)] label_index_nth[OF assms(5)] assms(2)
      label_index_neq[OF assms(4,5)] by simp_all
  from find_setup_data_total[OF assms(1-3)] obtain sd where
    sd: "find_setup_data fs cols maps hrc row = Inr sd" by blast
  show ?thesis
  proof (cases sd)
    case None
    with sd show ?thesis by (simp add: override_row_def bind_err_def)
  next
    case (Some d)
    let ?r1 = "if notna (entry_target d) then row[?ti := entry_target d] else row"
    let ?r2 = "if notna (entry_weight d) then ?r1[?wi := entry_weight d] else ?r1"
    have l1: "length ?r1 = length cols" using assms(2) by simp
    have s1: "(if notna (entry_target d) then set_item cols row ''target'' (entry_target d)
               else Inr row) = Inr ?r1"
      by (simp add: set_item_distinct[OF assms(1,4,2)])
    have s2: "(if notna (entry_weight d) then set_item cols ?r1 ''weight'' (entry_weight d)
               else Inr ?r1) = Inr ?r2"
      using set_item_distinct[OF assms(1,5) l1] by simp
    have o: "override_row fs cols maps hrc row = Inr ?r2"
      unfolding override_row_def sd Some by (simp add: bind_err_def s1 s2 del: if_split)
    have "length ?r2 = length row" by simp
    moreover have "notna (entry_target d) \<longrightarrow> ?r2 ! ?ti = entry_target d"
      using ti ne by simp
    moreover have "notna (entry_weight d) \<longrightarrow> ?r2 ! ?wi = entry_weight d"
      using wi by simp
    ultimately show ?thesis using o sd Some by auto
  qed
qed

lemma metric_mask_total:
  assumes "distinct cols" "length row = length cols" "''measure_config'' \<in> set cols"
    "''scorecard'' \<in> set cols" "''retailer'' \<in> set cols" "''measure_group'' \<in> set cols"
  shows "\<exists>b. metric_mask cols name row = Inr b"
proof (cases "''brand'' \<in> set cols")
  case True
  then show ?thesis
    by (simp add: metric_mask_def bind_err_def row_item_distinct(1)[OF assms(1) _ assms(2)] assms)
next
  case False
  then show ?thesis
    by (simp add: metric_mask_def bind_err_def row_item_distinct(1)[OF assms(1) _ assms(2)] assms)
qed

lemma step1_row_total:
  assumes "distinct cols" "length row = length cols" "''measure_config'' \<in> set cols"
    "''scorecard'' \<in> set cols" "''retailer'' \<in> set cols" "''measure_group'' \<in> set cols"
    "''target'' \<in> set cols" "''weight'' \<in> set cols"
  shows "\<exists>row1. bind_err (metric_mask cols name row)
                   (\<lambda>in_mask. if in_mask then override_row fs cols maps hrc row else Inr row)
                 = Inr row1
          \<and> length row1 = length row
          \<and> (\<forall>d. metric_mask cols name row = Inr True
                  \<and> find_setup_data fs cols maps hrc row = Inr (Some d) \<longrightarrow>
                (notna (entry_target d) \<longrightarrow> row1 ! label_index cols ''target'' = entry_target d)
              \<and> (notna (entry_weight d) \<longrightarrow> row1 ! label_index cols ''weight'' = entry_weight d))"
proof -
  from metric_mask_total[OF assms(1-6)] obtain b where b: "metric_mask cols name row = Inr b"
    by blast
  show ?thesis
  proof (cases b)
    case True
    from override_row_total[OF assms(1-3,7,8)] obtain row1 where
      "override_row fs cols maps hrc row = Inr row1" "length row1 = length row"
      "\<forall>d. find_setup_data fs cols maps hrc row = Inr (Some d) \<longrightarrow>
                (notna (entry_target d) \<longrightarrow> row1 ! label_index cols ''target'' = entry_target d)
              \<and> (notna (entry_weight d) \<longrightarrow> row1 ! label_index cols ''weight'' = entry_weight d)"
      by blast
    with b True show ?thesis by (simp add: bind_err_def)
  next
    case False
    with b show ?thesis by (simp add: bind_err_def)
  qed
qed

lemma fill_default_eq:
  assumes "distinct cols" "name \<in> set cols" "length row = length cols"
  shows "fill_default cols name d row
         = Inr (if blank_value (row ! label_index cols name)
                then row[label_index cols name := d] else row)"
  by (simp add: fill_default_def row_item_distinct(2)[OF assms] set_item_distinct[OF assms]
      bind_err_def)

text \<open>
  Claim C4. On an export frame with distinct labels that has the columns the two steps read,
  Step 1 and Step 2 both run to the end. After Step 2 a row whose target is blank after
  Step 1 has the target 50, a row whose weight is blank after Step 1 has the weight 1.0, and
  every other cell of the two columns is as Step 1 left it. In particular a row of the mask
  whose override holds the target 0 (or the weight 0) keeps that 0: zero is not blank for
  \<^verbatim>\<open>pd.notna\<close> in Step 1 nor for the test of Step 2.
\<close>

theorem two_pass_defaults:
  assumes "distinct (columns df)"
    and "\<forall>row\<in>set (rows df). length row = length (columns df)"
    and "set [''scorecard'', ''retailer'', ''measure_group'', ''measure_config'', ''target'',
              ''weight''] \<subseteq> set (columns df)"
  shows "\<exists>df1 df2.
           apply_metric_overrides fs maps hrc name df = Inr (Continue df1)
         \<and> apply_defaults df1 = Inr df2
         \<and> length (rows df1) = length (rows df) \<and> length (rows df2) = length (rows df)
         \<and> (\<forall>i<length (rows df).
               cell_at (columns df) (rows df2 ! i) ''target''
               = (if blank_value (cell_at (columns df) (rows df1 ! i) ''target'') then CInt 50
                  else cell_at (columns df) (rows df1 ! i) ''target'')
             \<and> cell_at (columns df) (rows df2 ! i) ''weight''
               = (if blank_value (cell_at (columns df) (rows df1 ! i) ''weight'')
                  then CFloat (Finite 1)
                  else cell_at (columns df) (rows df1 ! i) ''weight'')
             \<and> (\<forall>d. metric_mask (columns df) name (rows df ! i) = Inr True
                    \<and> find_setup_data fs (columns df) maps hrc (rows df ! i) = Inr (Some d) \<longrightarrow>
                    (entry_target d = CInt 0 \<or> entry_target d = CFloat (Finite 0) \<longrightarrow>
                       cell_at (columns df) (rows df2 ! i) ''target'' = entry_target d)
                  \<and> (entry_weight d = CInt 0 \<or> entry_weight d = CFloat (Finite 0) \<longrightarrow>
                       cell_at (columns df) (rows df2 ! i) ''weight'' = entry_weight d)))"
proof -
  let ?cols = "columns df"
  let ?ti = "label_index ?cols ''target''" and ?wi = "label_index ?cols ''weight''"
  let ?step1 = "\<lambda>row. bind_err (metric_mask ?cols name row)
                   (\<lambda>in_mask. if in_mask then override_row fs ?cols maps hrc row else Inr row)"
  let ?ft = "\<lambda>row. if blank_value (row ! ?ti) then row[?ti := CInt 50] else row"
  let ?fw = "\<lambda>row. if blank_value (row ! ?wi) then row[?wi := CFloat (Finite 1)] else row"
  from assms(3) have m: "''scorecard'' \<in> set ?cols" "''retailer'' \<in> set ?cols"
    "''measure_group'' \<in> set ?cols" "''measure_config'' \<in> set ?cols"
    "''target'' \<in> set ?cols" "''weight'' \<in> set ?cols" by simp_all
  have ti: "?ti < length ?cols" and wi: "?wi < length ?cols" and ne: "?ti \<noteq> ?wi"
    using label_index_nth[OF m(5)] label_index_nth[OF m(6)] label_index_neq[OF m(5,6)]
    by simp_all
  have row1: "\<exists>row1. ?step1 row = Inr row1 \<and> length row1 = length row
          \<and> (\<forall>d. metric_mask ?cols name row = Inr True
                  \<and> find_setup_data fs ?cols maps hrc row = Inr (Some d) \<longrightarrow>
                (notna (entry_target d) \<longrightarrow> row1 ! ?ti = entry_target d)
              \<and> (notna (entry_weight d) \<longrightarrow> row1 ! ?wi = entry_weight d))"
    if "row \<in> set (rows df)" for row
    using step1_row_total[OF assms(1) _ m(4) m(1) m(2) m(3) m(5) m(6)] assms(2) that by blast
  then have "\<forall>row\<in>set (rows df). \<exists>y. ?step1 row = Inr y" by blast
  from map_err_total[OF this] obtain rows1 where
    r1: "map_err ?step1 (rows df) = Inr rows1" and l1: "length rows1 = length (rows df)"
    and n1: "\<forall>i<length (rows df). ?step1 (rows df ! i) = Inr (rows1 ! i)" by blast
  let ?df1 = "df\<lparr>rows := rows1\<rparr>"
  have s1: "apply_metric_overrides fs maps hrc name df = Inr (Continue ?df1)"
    using m r1 by (simp add: apply_metric_overrides_def Let_def bind_err_def)
  have p1: "length (rows1 ! i) = length ?cols
      \<and> (\<forall>d. metric_mask ?cols name (rows df ! i) = Inr True
                  \<and> find_setup_data fs ?cols maps hrc (rows df ! i) = Inr (Some d) \<longrightarrow>
                (notna (entry_target d) \<longrightarrow> rows1 ! i ! ?ti = entry_target d)
              \<and> (notna (entry_weight d) \<longrightarrow> rows1 ! i ! ?wi = entry_weight d))"
    if "i < length (rows df)" for i
  proof -
    from that have mem: "rows df ! i \<in> set (rows df)" by simp
    from row1[OF mem] n1 that assms(2) mem show ?thesis by auto
  qed
  have len1: "\<forall>row\<in>set rows1. length row = length ?cols"
  proof
    fix row assume "row \<in> set rows1"
    then obtain i where "i < length rows1" "row = rows1 ! i" by (auto simp: in_set_conv_nth)
    with p1 l1 show "length row = length ?cols" by simp
  qed
  have t2: "map_err (fill_default ?cols ''target'' (CInt 50)) rows1 = Inr (map ?ft rows1)"
    using len1 by (intro map_err_map) (simp add: fill_default_eq[OF assms(1) m(5)])
  have len2: "\<forall>row\<in>set (map ?ft rows1). length row = length ?cols"
    using len1 by auto
  have w2: "map_err (fill_default ?cols ''weight'' (CFloat (Finite 1))) (map ?ft rows1)
            = Inr (map ?fw (map ?ft rows1))"
    using len2 by (intro map_err_map) (simp add: fill_default_eq[OF assms(1) m(6)])
  let ?df2 = "?df1\<lparr>rows := map ?fw (map ?ft rows1)\<rparr>"
  have s2: "apply_defaults ?df1 = Inr ?df2"
    using m t2 w2 by (simp add: apply_defaults_def Let_def bind_err_def)
  have main: "cell_at ?cols (rows ?df2 ! i) ''target''
               = (if blank_value (cell_at ?cols (rows ?df1 ! i) ''target'') then CInt 50
                  else cell_at ?cols (rows ?df1 ! i) ''target'')
             \<and> cell_at ?cols (rows ?df2 ! i) ''weight''
               = (if blank_value (cell_at ?cols (rows ?df1 ! i) ''weight'')
                  then CFloat (Finite 1)
                  else cell_at ?cols (rows ?df1 ! i) ''weight'')
             \<and> (\<forall>d. metric_mask ?cols name (rows df ! i) = Inr True
                    \<and> find_setup_data fs ?cols maps hrc (rows df ! i) = Inr (Some d) \<longrightarrow>
                    (entry_target d = CInt 0 \<or> entry_target d = CFloat (Finite 0) \<longrightarrow>
                       cell_at ?cols (rows ?df2 ! i) ''target'' = entry_target d)
                  \<and> (entry_weight d = CInt 0 \<or> entry_weight d = CFloat (Finite 0) \<longrightarrow>
                       cell_at ?cols (rows ?df2 ! i) ''weight'' = entry_weight d))"
    if i: "i < length (rows df)" for i
  proof -
    let ?r = "rows1 ! i"
    from p1[OF i] have lr: "length ?r = length ?cols"
      and ov: "\<forall>d. metric_mask ?cols name (rows df ! i) = Inr True
                  \<and> find_setup_data fs ?cols maps hrc (rows df ! i) = Inr (Some d) \<longrightarrow>
                (notna (entry_target d) \<longrightarrow> ?r ! ?ti = entry_target d)
              \<and> (notna (entry_weight d) \<longrightarrow> ?r ! ?wi = entry_weight d)"
      by blast+
    have r2: "rows ?df2 ! i = ?fw (?ft ?r)" using i l1 by simp
    have lf: "length (?fw (?ft ?r)) = length ?cols" "length (?ft ?r) = length ?cols"
      using lr by simp_all
    have c1t: "cell_at ?cols (rows ?df1 ! i) ''target'' = ?r ! ?ti"
      and c1w: "cell_at ?cols (rows ?df1 ! i) ''weight'' = ?r ! ?wi"
      using row_item_distinct(3)[OF assms(1) _ lr] m by simp_all
    have c2t: "cell_at ?cols (rows ?df2 ! i) ''target'' = ?fw (?ft ?r) ! ?ti"
      and c2w: "cell_at ?cols (rows ?df2 ! i) ''weight'' = ?fw (?ft ?r) ! ?wi"
      unfolding r2 using row_item_distinct(3)[OF assms(1) _ lf(1)] m by simp_all
    have ft: "?fw (?ft ?r) ! ?ti = (if blank_value (?r ! ?ti) then CInt 50 else ?r ! ?ti)"
      using ti ne lr by simp
    have fw: "?fw (?ft ?r) ! ?wi
              = (if blank_value (?r ! ?wi) then CFloat (Finite 1) else ?r ! ?wi)"
      using wi ne lr by simp
    have zero: "\<not> blank_value (CInt 0)" "\<not> blank_value (CFloat (Finite 0))"
      "notna (CInt 0)" "notna (CFloat (Finite 0))"
      by (simp_all add: blank_value_def isna_def notna_def)
    have z: "(entry_target d = CInt 0 \<or> entry_target d = CFloat (Finite 0) \<longrightarrow>
                 ?fw (?ft ?r) ! ?ti = entry_target d)
           \<and> (entry_weight d = CInt 0 \<or> entry_weight d = CFloat (Finite 0) \<longrightarrow>
                 ?fw (?ft ?r) ! ?wi = entry_weight d)"
      if "metric_mask ?cols name (rows df ! i) = Inr True
            \<and> find_setup_data fs ?cols maps hrc (rows df ! i) = Inr (Some d)" for d
    proof -
      from ov that have a: "notna (entry_target d) \<longrightarrow> ?r ! ?ti = entry_target d"
        and b: "notna (entry_weight d) \<longrightarrow> ?r ! ?wi = entry_weight d" by blast+
      show ?thesis unfolding ft fw using a b zero by auto
    qed
    show ?thesis unfolding c1t c1w c2t c2w using ft fw z by blast
  qed
  have "length (rows ?df1) = length (rows df)" "length (rows ?df2) = length (rows df)"
    using l1 by simp_all
  with s1 s2 main show ?thesis by blast
qed

theorem two_pass_defaults_witness:
  "\<exists>df1 df2.
     apply_metric_overrides (\<lambda>f. [])
       \<lparr>setup_mapping = (\<lambda>k. None)(MetricKey ''in stock'' \<mapsto>
            \<lparr>entry_target = CFloat (Finite 0), entry_weight = CInt 0\<rparr>),
        setup_mapping_all = (\<lambda>k. None)\<rparr>
       False ''Default''
       \<lparr>columns = [''scorecard'', ''retailer'', ''measure_group'', ''measure_config'', ''target'',
                   ''weight''],
        rows = [[CStr ''Default'', CFloat NotANumber, CFloat NotANumber, CStr ''In Stock'',
                 CFloat NotANumber, CFloat NotANumber],
                [CStr ''Default'', CFloat NotANumber, CFloat NotANumber, CStr ''Images'',
                 CFloat NotANumber, CFloat (Finite 2)]],
        selection_object = False\<rparr>
     = Inr (Continue df1)
   \<and> apply_defaults df1 = Inr df2
   \<and> rows df2 = [[CStr ''Default'', CFloat NotANumber, CFloat NotANumber, CStr ''In Stock'',
                   CFloat (Finite 0), CInt 0],
                  [CStr ''Default'', CFloat NotANumber, CFloat NotANumber, CStr ''Images'',
                   CInt 50, CFloat (Finite 2)]]
   \<and> cell_at (columns df2) (rows df2 ! 0) ''target'' = CFloat (Finite 0)
   \<and> cell_at (columns df2) (rows df2 ! 1) ''target'' = CInt 50"
proof -
  let ?maps = "\<lparr>setup_mapping = (\<lambda>k. None)(MetricKey ''in stock'' \<mapsto>
            \<lparr>entry_target = CFloat (Finite 0), entry_weight = CInt 0\<rparr>),
        setup_mapping_all = (\<lambda>k. None)\<rparr>"
  let ?cols = "[''scorecard'', ''retailer'', ''measure_group'', ''measure_config'', ''target'',
                   ''weight'']"
  let ?row0 = "[CStr ''Default'', CFloat NotANumber, CFloat NotANumber, CStr ''In Stock'',
                 CFloat NotANumber, CFloat NotANumber]"
  let ?row1 = "[CStr ''Default'', CFloat NotANumber, CFloat NotANumber, CStr ''Images'',
                 CFloat NotANumber, CFloat (Finite 2)]"
  let ?df = "\<lparr>columns = ?cols, rows = [?row0, ?row1], selection_object = False\<rparr>"
  let ?out = "[[CStr ''Default'', CFloat NotANumber, CFloat NotANumber, CStr ''In Stock'',
                   CFloat (Finite 0), CInt 0],
                  [CStr ''Default'', CFloat NotANumber, CFloat NotANumber, CStr ''Images'',
                   CInt 50, CFloat (Finite 2)]]"
  let ?df1 = "\<lparr>columns = ?cols,
               rows = [[CStr ''Default'', CFloat NotANumber, CFloat NotANumber, CStr ''In Stock'',
                        CFloat (Finite 0), CInt 0], ?row1],
               selection_object = False\<rparr>"
  let ?df2 = "\<lparr>columns = ?cols, rows = ?out, selection_object = False\<rparr>"
  have h1: "distinct (columns ?df)" by simp
  have h2: "\<forall>row\<in>set (rows ?df). length row = length (columns ?df)" by simp
  have h3: "set [''scorecard'', ''retailer'', ''measure_group'', ''measure_config'', ''target'',
              ''weight''] \<subseteq> set (columns ?df)" by simp
  have e1: "apply_metric_overrides (\<lambda>f. []) ?maps False ''Default'' ?df = Inr (Continue ?df1)"
    by code_simp
  have e2: "apply_defaults ?df1 = Inr ?df2" by code_simp
  from two_pass_defaults[OF h1 h2 h3, of "\<lambda>f. []" ?maps False "''Default''"]
  obtain df1 df2 where a: "apply_metric_overrides (\<lambda>f. []) ?maps False ''Default'' ?df
      = Inr (Continue df1)" and b: "apply_defaults df1 = Inr df2"
    and c: "\<forall>i<length (rows ?df).
               cell_at (columns ?df) (rows df2 ! i) ''target''
               = (if blank_value (cell_at (columns ?df) (rows df1 ! i) ''target'') then CInt 50
                  else cell_at (columns ?df) (rows df1 ! i) ''target'')"
    by blast
  from a e1 have d1: "df1 = ?df1" by simp
  with b e2 have d2: "df2 = ?df2" by simp
  have c1: "cell_at ?cols (rows ?df1 ! 0) ''target'' = CFloat (Finite 0)"
    and c2: "cell_at ?cols (rows ?df1 ! 1) ''target'' = CFloat NotANumber"
    by code_simp+
  have bl: "\<not> blank_value (CFloat (Finite 0))" "blank_value (CFloat NotANumber)"
    by (simp_all add: blank_value_def isna_def)
  from c have "cell_at ?cols (rows df2 ! 0) ''target''
               = (if blank_value (cell_at ?cols (rows df1 ! 0) ''target'') then CInt 50
                  else cell_at ?cols (rows df1 ! 0) ''target'')"
    and "cell_at ?cols (rows df2 ! 1) ''target''
               = (if blank_value (cell_at ?cols (rows df1 ! 1) ''target'') then CInt 50
                  else cell_at ?cols (rows df1 ! 1) ''target'')"
    by simp_all
  then have r: "cell_at ?cols (rows df2 ! 0) ''target'' = CFloat (Finite 0)"
    "cell_at ?cols (rows df2 ! 1) ''target'' = CInt 50"
    unfolding d1 c1 c2 using bl by simp_all
  have "columns df2 = ?cols" "rows df2 = ?out" unfolding d2 by simp_all
  with a b r show ?thesis by (intro exI[of _ df1] exI[of _ df2]) simp
qed

end
